theory Spec2Isabelle
  imports Main "HOL-Library.Word"
begin

unbundle bit_operations_syntax

section \<open>Arbitrary-precision integer operators of the source language\<close>

text \<open>
  The decoder computes on JavaScript \<open>bigint\<close> values, modelled as \<open>int\<close>: the bitwise
  operators of \<open>int\<close> act on the infinite two's complement representation, as those of
  \<open>bigint\<close> do. A shift by a literal amount is written with \<open>drop_bit\<close> or \<open>push_bit\<close>
  directly; a shift by a computed amount goes through \<open>bigint_shr\<close> and \<open>bigint_shl\<close>,
  where a negative amount shifts the other way. The remainder operator \<open>%\<close> on numbers
  takes the sign of the dividend (\<open>js_rem\<close>; the source never divides by zero there, its
  guard returns before).
\<close>

definition bigint_shl :: "int \<Rightarrow> int \<Rightarrow> int" where
  "bigint_shl x k = (if 0 \<le> k then push_bit (nat k) x else drop_bit (nat (- k)) x)"

definition bigint_shr :: "int \<Rightarrow> int \<Rightarrow> int" where
  "bigint_shr x k = (if 0 \<le> k then drop_bit (nat k) x else push_bit (nat (- k)) x)"

definition js_rem :: "int \<Rightarrow> int \<Rightarrow> int" where
  "js_rem a b = sgn a * (\<bar>a\<bar> mod \<bar>b\<bar>)"

section \<open>Cards and deck maps (lib/cards)\<close>

definition WHOT_DECK :: "int list" where
  "WHOT_DECK =
    [1, 2, 3, 4, 5, 7, 8, 10, 11, 12, 13, 14, 65, 66, 67, 68, 69, 71, 72, 74, 75, 76, 77,
     78, 33, 34, 35, 37, 39, 42, 43, 45, 46, 97, 98, 99, 101, 103, 106, 107, 109, 110, 129,
     130, 131, 132, 133, 135, 136, 180, 180, 180, 180, 180]"

datatype CardShape = Circle | Triangle | Cross | Square | Star | Whot

definition CARD_SHAPES :: "CardShape list" where
  "CARD_SHAPES = [Circle, Triangle, Cross, Square, Star, Whot]"

record OwnedCard =
  index :: nat
  shape :: CardShape
  number :: int
  cardValue :: int
  label :: string

record DeckMapShape =
  raw :: int
  cardBitSize :: int
  mapBits :: int

text \<open>\<open>CARD_SHAPES[shapeIdx] ?? "Circle"\<close>: an index past the table reads \<open>undefined\<close>,
  which the \<open>??\<close> replaces by the first shape.\<close>

definition cardShape :: "int \<Rightarrow> CardShape" where
  "cardShape crd =
    (let shapeIdx = nat (drop_bit 5 crd AND 7)
     in if shapeIdx < length CARD_SHAPES then CARD_SHAPES ! shapeIdx else Circle)"

definition cardNumber :: "int \<Rightarrow> int" where
  "cardNumber crd = crd AND 31"

definition shapeName :: "CardShape \<Rightarrow> string" where
  "shapeName s = (case s of Circle \<Rightarrow> ''Circle'' | Triangle \<Rightarrow> ''Triangle''
     | Cross \<Rightarrow> ''Cross'' | Square \<Rightarrow> ''Square'' | Star \<Rightarrow> ''Star'' | Whot \<Rightarrow> ''Whot'')"

text \<open>The decimal rendering of a number in a template string; \<open>digitChar\<close> is only
  applied to a digit below 10.\<close>

definition digitChar :: "nat \<Rightarrow> char" where
  "digitChar d = ''0123456789'' ! d"

fun showNat :: "nat \<Rightarrow> string" where
  "showNat n = (if n < 10 then [digitChar n] else showNat (n div 10) @ [digitChar (n mod 10)])"

declare showNat.simps [simp del]

definition describeCard :: "int \<Rightarrow> string" where
  "describeCard crd =
    (if crd = 0 then ''Face down''
     else let num = cardNumber crd; shp = cardShape crd
          in if shp = Whot then ''Whot-'' @ showNat (nat num)
             else shapeName shp @ '' '' @ showNat (nat num))"

text \<open>A deck map arrives as a \<open>bigint\<close>, a number or a hex string and is converted with
  \<open>BigInt(deckMap ?? 0)\<close> first; the model starts from the converted integer.\<close>

definition decodeDeckMap :: "int \<Rightarrow> DeckMapShape" where
  "decodeDeckMap deckMap =
    (let rawv = deckMap;
         bits = drop_bit 2 rawv;
         bitSize = 8 - (rawv AND 3)
     in \<lparr>raw = rawv, cardBitSize = bitSize, mapBits = bits\<rparr>)"

text \<open>The \<open>while\<close> loop of \<open>deckMapToIndexes\<close>: \<open>cursor\<close>, the position \<open>i\<close> and the
  indices pushed so far. It ends because \<open>i\<close> grows towards \<open>maxCards\<close>; a negative
  \<open>cursor\<close> never becomes zero and is stopped by \<open>maxCards\<close> only.\<close>

function indexLoop :: "int \<Rightarrow> nat \<Rightarrow> int \<Rightarrow> nat list \<Rightarrow> nat list" where
  "indexLoop cursor i maxCards indexes =
    (if cursor \<noteq> 0 \<and> int i < maxCards
     then indexLoop (drop_bit 1 cursor) (Suc i) maxCards
            (if cursor AND 1 \<noteq> 0 then indexes @ [i] else indexes)
     else indexes)"
  by pat_completeness auto
termination
  by (relation "measure (\<lambda>(cursor, i, maxCards, indexes). nat (maxCards - int i))") auto

declare indexLoop.simps [simp del]

definition deckMapToIndexes :: "int \<Rightarrow> int \<Rightarrow> nat list" where
  "deckMapToIndexes deckMap maxCards = indexLoop (mapBits (decodeDeckMap deckMap)) 0 maxCards []"

text \<open>The default value of the parameter \<open>maxCards\<close>.\<close>

definition defaultMaxCards :: int where
  "defaultMaxCards = 64"

definition countDeckCards :: "int \<Rightarrow> nat" where
  "countDeckCards deckMap = length (deckMapToIndexes deckMap defaultMaxCards)"

definition handCard :: "int \<Rightarrow> int \<Rightarrow> int \<Rightarrow> int \<Rightarrow> int \<Rightarrow> nat \<Rightarrow> OwnedCard" where
  "handCard bitSize cardsPerWord msk hand0 hand1 idx =
    (let limb = (if int idx < cardsPerWord then hand0 else hand1);
         offset = js_rem (int idx) cardsPerWord * bitSize;
         rawv = bigint_shr limb offset AND msk;
         v = rawv
     in \<lparr>index = idx, shape = cardShape v, number = cardNumber v, cardValue = v,
         label = describeCard v\<rparr>)"

definition decodeHandCards :: "int \<Rightarrow> int \<Rightarrow> int \<Rightarrow> OwnedCard list" where
  "decodeHandCards deckMap hand0 hand1 =
    (let bitSize = cardBitSize (decodeDeckMap deckMap);
         indexes = deckMapToIndexes deckMap defaultMaxCards
     in if bitSize = 0 \<or> bitSize > 32 then []
        else let cardsPerWord = 256 div bitSize
             in if cardsPerWord = 0 then []
                else let msk = bigint_shl 1 bitSize - 1
                     in map (handCard bitSize cardsPerWord msk hand0 hand1) indexes)"

text \<open>The field of a hand word as the specification words it: the word is the first one
  for the first \<open>floor(256 / width)\<close> indices and the second one for the rest, the bit offset
  is \<open>(index mod cardsPerWord) * width\<close>, and the field is \<open>width\<close> bits wide.\<close>

definition spec_handField :: "nat \<Rightarrow> int \<Rightarrow> int \<Rightarrow> nat \<Rightarrow> int" where
  "spec_handField width word0 word1 idx =
    (let cardsPerWord = 256 div width;
         word = (if idx < cardsPerWord then word0 else word1);
         offset = (idx mod cardsPerWord) * width
     in (word div 2 ^ offset) mod 2 ^ width)"

section \<open>The storage decoder (lib/cardEngineView)\<close>

subsection \<open>Library functions and the RPC layer\<close>

text \<open>
  The decoder calls functions of the \<open>viem\<close> library and the \<open>BigInt\<close> constructor on
  their results. \<open>keccak256\<close> maps an encoding to the hash as a hex string, \<open>BigInt\<close> reads
  that string as an integer, and \<open>getAddress\<close> puts a 40-digit hex address in checksum
  case: they are parameters of the model, total on the values the decoder passes them.
  \<open>hexToBigInt\<close> is applied to what the RPC layer returned, inside a \<open>try\<close> block, and may
  throw. \<open>encodeAbiParameters\<close> is written out below, with the range error of its
  \<open>uint256\<close> encoder.
\<close>

record 'e viem =
  keccak256 :: "string \<Rightarrow> string"
  BigInt :: "string \<Rightarrow> int"
  getAddress :: "string \<Rightarrow> string"
  hexToBigInt :: "string \<Rightarrow> 'e + int"

text \<open>What an operation of the decoder throws: the range error of the encoder, or what
  the RPC layer or \<open>hexToBigInt\<close> threw in the last attempt of a read.\<close>

datatype 'e error = IntegerOutOfRangeError | ReadFailure 'e

text \<open>\<open>ExtsloadArgs\<close> is \<open>readonly [bigint, bigint] | readonly [bigint[]]\<close>: a first slot
  and a count, or a list of slots.\<close>

datatype ExtsloadArgs = SlotCount int int | SlotList "int list"

text \<open>
  The calls the decoder issues: \<open>extsload\<close> through the balanced pool
  (\<open>readContractBalanced\<close>) or through the client (\<open>client.readContract\<close>), and a raw
  storage read of one slot through the pool (\<open>getStorageAtBalanced\<close>) or the client
  (\<open>client.getStorageAt\<close>). The slot of a storage read is recorded as the integer that
  the source renders with \<open>toHex\<close>. The pool (\<open>lib/rpcPool\<close>) and the client are outside
  the decoder: the answer to a call is a parameter, a function of the call and of the
  calls issued before it, so that the same call may be answered differently each time.
  An answer is a value or a thrown error (\<open>Inl\<close>). The trace of calls is the state that
  the operations thread.
\<close>

datatype rpc_call =
    ReadContractBalanced ExtsloadArgs
  | ClientReadContract ExtsloadArgs
  | GetStorageAtBalanced int
  | ClientGetStorageAt int

type_synonym trace = "rpc_call list"

record 'e rpc =
  readContractBalanced :: "trace \<Rightarrow> ExtsloadArgs \<Rightarrow> 'e + int list"
  clientReadContract :: "trace \<Rightarrow> ExtsloadArgs \<Rightarrow> 'e + int list"
  getStorageAtBalanced :: "trace \<Rightarrow> int \<Rightarrow> 'e + string option"
  clientGetStorageAt :: "trace \<Rightarrow> int \<Rightarrow> 'e + string option"

subsection \<open>Constants and bit fields\<close>

definition GAME_DATA_SLOT :: int where "GAME_DATA_SLOT = 2"
definition PLAYER_DATA_OFFSET :: int where "PLAYER_DATA_OFFSET = 4"
definition COMMITMENT_SLOT :: int where "COMMITMENT_SLOT = 0"

definition ADDRESS_MASK :: int where "ADDRESS_MASK = push_bit 160 1 - 1"
definition U64_MASK :: int where "U64_MASK = push_bit 64 1 - 1"
definition U40_MASK :: int where "U40_MASK = push_bit 40 1 - 1"
definition U16_MASK :: int where "U16_MASK = push_bit 16 1 - 1"
definition U8_MASK :: int where "U8_MASK = push_bit 8 1 - 1"

definition loadBits :: "int \<Rightarrow> nat \<Rightarrow> int \<Rightarrow> int" where
  "loadBits v offset msk = drop_bit offset v AND msk"

text \<open>\<open>value.toString(16)\<close> on a \<open>bigint\<close>, and \<open>padStart\<close>. \<open>hexDigit\<close> is only
  applied to a digit below 16.\<close>

definition hexDigit :: "nat \<Rightarrow> char" where
  "hexDigit d = ''0123456789abcdef'' ! d"

fun hexNat :: "nat \<Rightarrow> string" where
  "hexNat n = (if n < 16 then [hexDigit n] else hexNat (n div 16) @ [hexDigit (n mod 16)])"

declare hexNat.simps [simp del]

definition toString16 :: "int \<Rightarrow> string" where
  "toString16 v = (if v < 0 then CHR ''-'' # hexNat (nat (- v)) else hexNat (nat v))"

definition padStart :: "nat \<Rightarrow> char \<Rightarrow> string \<Rightarrow> string" where
  "padStart n c s = replicate (n - length s) c @ s"

text \<open>\<open>toAddress\<close> renders the value as \<open>0x\<close> and 40 hex digits (\<open>addressHex\<close>, the
  template string of the source) and hands the string to \<open>getAddress\<close>.\<close>

definition addressHex :: "int \<Rightarrow> string" where
  "addressHex v = ''0x'' @ padStart 40 CHR ''0'' (toString16 v)"

definition toAddress :: "'e viem \<Rightarrow> int \<Rightarrow> string" where
  "toAddress lib v = getAddress lib (addressHex v)"

text \<open>\<open>hexToBigIntSafe\<close>: \<open>undefined\<close> (\<open>None\<close>), the empty string and \<open>"0x"\<close> read as
  zero.\<close>

definition hexToBigIntSafe :: "'e viem \<Rightarrow> string option \<Rightarrow> 'e + int" where
  "hexToBigIntSafe lib v =
    (case v of None \<Rightarrow> Inr 0
     | Some s \<Rightarrow> if s = [] \<or> s = ''0x'' then Inr 0 else hexToBigInt lib s)"

text \<open>The loop of \<open>countPlayersFromStore\<close>; it ends because a positive \<open>raw\<close> shrinks
  when shifted.\<close>

function countLoop :: "int \<Rightarrow> int \<Rightarrow> int" where
  "countLoop rawv count =
    (if rawv > 0 then countLoop (drop_bit 1 rawv) (count + (rawv AND 1)) else count)"
  by pat_completeness auto
termination
  by (relation "measure (\<lambda>(rawv, count). nat rawv)") (auto simp: drop_bit_eq_div)

declare countLoop.simps [simp del]

definition countPlayersFromStore :: "int \<Rightarrow> int" where
  "countPlayersFromStore storeMap = countLoop (drop_bit 1 storeMap) 0"

record GameDataView =
  gameCreator :: string
  callCard :: int
  playerTurnIdx :: int
  status :: int
  lastMoveTimestamp :: int
  numProposedPlayers :: int
  hookPermissions :: int
  playerStoreMap :: int
  playersJoined :: int
  playersLeftToJoin :: int
  maxPlayers :: int
  ruleset :: string
  marketDeckMap :: int
  initialHandSize :: int

record PlayerDataView =
  playerAddr :: string
  deckMap :: int
  pendingAction :: int
  score :: int
  forfeited :: bool
  hand0 :: int
  hand1 :: int

subsection \<open>Slot derivation\<close>

text \<open>
  \<open>encodeAbiParameters\<close> of \<open>viem\<close>, at the one parameter type of its call sites,
  \<open>uint256\<close>: a value outside \<open>0 .. 2^256 - 1\<close> makes the encoder throw
  \<open>IntegerOutOfRangeError\<close> (a \<open>bigint\<close> has no bound of its own); otherwise the encoding
  is \<open>0x\<close> followed by the 64 hex digits of each value (\<open>abiWord\<close>, \<open>abiHex\<close>). The three slot
  functions call it outside every \<open>try\<close> block, so its error is theirs and that of the
  read that asked for the slot.
\<close>

definition abiWord :: "int \<Rightarrow> string" where
  "abiWord v = padStart 64 CHR ''0'' (toString16 v)"

definition abiHex :: "int list \<Rightarrow> string" where
  "abiHex vs = ''0x'' @ concat (map abiWord vs)"

definition encodeAbiParameters :: "int list \<Rightarrow> 'e error + string" where
  "encodeAbiParameters vs =
    (if list_all (\<lambda>v. 0 \<le> v \<and> v < 2 ^ 256) vs then Inr (abiHex vs)
     else Inl IntegerOutOfRangeError)"

definition gameDataSlot :: "'e viem \<Rightarrow> int \<Rightarrow> 'e error + int" where
  "gameDataSlot lib gameId =
    (case encodeAbiParameters [gameId, GAME_DATA_SLOT] of
       Inl err \<Rightarrow> Inl err
     | Inr encoded \<Rightarrow> Inr (BigInt lib (keccak256 lib encoded)))"

definition commitmentSlot :: "'e viem \<Rightarrow> int \<Rightarrow> 'e error + int" where
  "commitmentSlot lib gameId =
    (case encodeAbiParameters [gameId, COMMITMENT_SLOT] of
       Inl err \<Rightarrow> Inl err
     | Inr encoded \<Rightarrow> Inr (BigInt lib (keccak256 lib encoded)))"

definition playerDataSlot :: "'e viem \<Rightarrow> int \<Rightarrow> int \<Rightarrow> 'e error + int" where
  "playerDataSlot lib gameId playerIndex =
    (case gameDataSlot lib gameId of
       Inl err \<Rightarrow> Inl err
     | Inr gameSlot \<Rightarrow>
         (let baseSlot = gameSlot + PLAYER_DATA_OFFSET
          in case encodeAbiParameters [baseSlot] of
               Inl err \<Rightarrow> Inl err
             | Inr encoded \<Rightarrow> Inr (BigInt lib (keccak256 lib encoded) + playerIndex * 3)))"

subsection \<open>Decoding\<close>

definition decodeGameData :: "'e viem \<Rightarrow> int \<Rightarrow> int \<Rightarrow> GameDataView" where
  "decodeGameData lib raw0 raw1 =
    (let storeMap = loadBits raw0 240 U16_MASK;
         leftToJoin = loadBits raw1 232 U8_MASK;
         joined = countPlayersFromStore storeMap
     in \<lparr>gameCreator = toAddress lib (loadBits raw0 0 ADDRESS_MASK),
         callCard = loadBits raw0 160 U8_MASK,
         playerTurnIdx = loadBits raw0 168 U8_MASK,
         status = loadBits raw0 176 U8_MASK,
         lastMoveTimestamp = loadBits raw0 184 U40_MASK,
         numProposedPlayers = loadBits raw0 224 U8_MASK,
         hookPermissions = loadBits raw0 232 U8_MASK,
         playerStoreMap = storeMap,
         playersJoined = joined,
         playersLeftToJoin = leftToJoin,
         maxPlayers = joined + leftToJoin,
         ruleset = toAddress lib (loadBits raw1 0 ADDRESS_MASK),
         marketDeckMap = loadBits raw1 160 U64_MASK,
         initialHandSize = loadBits raw1 224 U8_MASK\<rparr>)"


subsection \<open>Reading words\<close>

text \<open>The contract address \<open>cardEngine\<close> is the same in every call and is left to the
  environment. \<open>values[k] ?? 0n\<close> reads a missing position as zero.\<close>

definition nth0 :: "int list \<Rightarrow> nat \<Rightarrow> int" where
  "nth0 values k = (if k < length values then values ! k else 0)"

text \<open>\<open>readExtsload\<close>: \<open>extsload\<close> through the pool and, when that throws, through the
  client.\<close>

definition readExtsload :: "'e rpc \<Rightarrow> ExtsloadArgs \<Rightarrow> trace \<Rightarrow> ('e + int list) \<times> trace" where
  "readExtsload client args tr =
    (case readContractBalanced client tr args of
       Inr rawv \<Rightarrow> (Inr rawv, tr @ [ReadContractBalanced args])
     | Inl e \<Rightarrow>
         (clientReadContract client (tr @ [ReadContractBalanced args]) args,
          tr @ [ReadContractBalanced args, ClientReadContract args]))"

text \<open>\<open>Promise.all(slots.map(read))\<close>: every read is issued, in the order of the slots,
  before any answer is awaited; the whole rejects when one read rejects (the model reports
  the rejection of the first such slot).\<close>

fun promiseAll ::
  "(trace \<Rightarrow> int \<Rightarrow> 'e + 'a) \<Rightarrow> (int \<Rightarrow> rpc_call) \<Rightarrow> int list \<Rightarrow> trace \<Rightarrow> ('e + 'a list) \<times> trace"
where
  "promiseAll rd mk [] tr = (Inr [], tr)"
| "promiseAll rd mk (slot # rest) tr =
    (let answer = rd tr slot;
         (others, tr') = promiseAll rd mk rest (tr @ [mk slot])
     in (case answer of
           Inl e \<Rightarrow> Inl e
         | Inr v \<Rightarrow> (case others of Inl e \<Rightarrow> Inl e | Inr vs \<Rightarrow> Inr (v # vs)),
         tr'))"

text \<open>\<open>values.map(f)\<close> for an \<open>f\<close> that may throw: the first throw ends the map.\<close>

fun mapThrow :: "('a \<Rightarrow> 'e + 'b) \<Rightarrow> 'a list \<Rightarrow> 'e + 'b list" where
  "mapThrow f [] = Inr []"
| "mapThrow f (x # xs) =
    (case f x of
       Inl e \<Rightarrow> Inl e
     | Inr y \<Rightarrow> (case mapThrow f xs of Inl e \<Rightarrow> Inl e | Inr ys \<Rightarrow> Inr (y # ys)))"

text \<open>\<open>readStorageSlots\<close>: one raw read per slot through the pool; when a read or the
  conversion of an answer throws, one raw read per slot through the client, whose
  failure is the caller's.\<close>

definition readStorageSlots ::
  "'e rpc \<Rightarrow> 'e viem \<Rightarrow> int list \<Rightarrow> trace \<Rightarrow> ('e + int list) \<times> trace"
where
  "readStorageSlots client lib slots tr =
    (let (pooled, tr1) = promiseAll (getStorageAtBalanced client) GetStorageAtBalanced slots tr
     in case (case pooled of Inl e \<Rightarrow> Inl e
              | Inr values \<Rightarrow> mapThrow (hexToBigIntSafe lib) values) of
          Inr words \<Rightarrow> (Inr words, tr1)
        | Inl e \<Rightarrow>
            (let (direct, tr2) =
                   promiseAll (clientGetStorageAt client) ClientGetStorageAt slots tr1
             in (case direct of Inl e2 \<Rightarrow> Inl e2
                 | Inr values \<Rightarrow> mapThrow (hexToBigIntSafe lib) values, tr2)))"





subsection \<open>Reading a batch of games\<close>

text \<open>\<open>Array.from(new Set(xs))\<close> keeps the first occurrence of each element, in order.\<close>

definition uniqueFirst :: "'a list \<Rightarrow> 'a list" where
  "uniqueFirst xs = rev (remdups (rev xs))"

text \<open>The two slots of each game of a chunk, as the inner \<open>for\<close> loop pushes them; the
  loop ends with the first identifier whose slot derivation throws.\<close>

fun chunkSlots :: "'e viem \<Rightarrow> int list \<Rightarrow> 'e error + int list" where
  "chunkSlots lib [] = Inr []"
| "chunkSlots lib (gid # rest) =
    (case gameDataSlot lib gid of
       Inl err \<Rightarrow> Inl err
     | Inr slot \<Rightarrow>
         (case chunkSlots lib rest of
            Inl err \<Rightarrow> Inl err
          | Inr slots \<Rightarrow> Inr (slot # (slot + 1) # slots)))"

text \<open>The \<open>try\<close>/\<open>catch\<close> statement that reads the words of one chunk.\<close>

definition readChunkWords ::
  "'e rpc \<Rightarrow> 'e viem \<Rightarrow> int list \<Rightarrow> trace \<Rightarrow> ('e + int list) \<times> trace"
where
  "readChunkWords client lib slots tr =
    (let (primary, tr1) = readExtsload client (SlotList slots) tr
     in case primary of
          Inr rawv \<Rightarrow> (Inr rawv, tr1)
        | Inl e \<Rightarrow> readStorageSlots client lib slots tr1)"

text \<open>The loop that stores the decoded game of each position \<open>j\<close> of the chunk.\<close>

definition setChunk ::
  "'e viem \<Rightarrow> (int \<rightharpoonup> GameDataView) \<Rightarrow> int list \<Rightarrow> int list \<Rightarrow> (int \<rightharpoonup> GameDataView)"
where
  "setChunk lib results sliceIds values =
    fold (\<lambda>j res. res(sliceIds ! j \<mapsto>
            decodeGameData lib (nth0 values (j * 2)) (nth0 values (j * 2 + 1))))
      [0..<length sliceIds] results"

text \<open>
  The outer loop of \<open>readGameDataBatch\<close>, from position \<open>i\<close> of \<open>uniqueIds\<close>; \<open>sliceIds\<close>
  is the \<open>slice\<close> of the source, \<open>uniqueIds.slice(i, i + batchSize)\<close>. With a \<open>batchSize\<close>
  of zero and an identifier to read, \<open>i\<close> never advances and the loop does not return: the
  result is an \<open>option\<close>, and \<open>None\<close> is not returning.
\<close>

partial_function (option) batchLoop ::
  "'e rpc \<Rightarrow> 'e viem \<Rightarrow> nat \<Rightarrow> int list \<Rightarrow> nat \<Rightarrow> (int \<rightharpoonup> GameDataView) \<Rightarrow> trace
    \<Rightarrow> (('e error + (int \<rightharpoonup> GameDataView)) \<times> trace) option"
where
  "batchLoop client lib batchSize uniqueIds i results tr =
    (if i < length uniqueIds
     then (let sliceIds = take batchSize (drop i uniqueIds)
           in case chunkSlots lib sliceIds of
                Inl err \<Rightarrow> Some (Inl err, tr)
              | Inr slots \<Rightarrow>
                  if slots = []
                  then batchLoop client lib batchSize uniqueIds (i + batchSize) results tr
                  else (case readChunkWords client lib slots tr of
                          (Inl e, tr') \<Rightarrow> Some (Inl (ReadFailure e), tr')
                        | (Inr values, tr') \<Rightarrow>
                            batchLoop client lib batchSize uniqueIds (i + batchSize)
                              (setChunk lib results sliceIds values) tr'))
     else Some (Inr results, tr))"

declare batchLoop.simps [code]

text \<open>The default value of the parameter \<open>batchSize\<close>.\<close>

definition defaultBatchSize :: nat where
  "defaultBatchSize = 50"

definition readGameDataBatch ::
  "'e rpc \<Rightarrow> 'e viem \<Rightarrow> int list \<Rightarrow> nat \<Rightarrow> trace
    \<Rightarrow> (('e error + (int \<rightharpoonup> GameDataView)) \<times> trace) option"
where
  "readGameDataBatch client lib gameIds batchSize tr =
    (let uniqueIds = uniqueFirst (filter (\<lambda>gid. gid > 0) gameIds)
     in batchLoop client lib batchSize uniqueIds 0 Map.empty tr)"

subsection \<open>The packing of a game record, as the specification documents it\<close>

text \<open>
  The two words of a game record as the data model of the specification lays them out:
  in word 0 the creator address at bit 0, \<open>callCard\<close> at 160, \<open>currentTurnIndex\<close> at 168,
  \<open>status\<close> at 176, \<open>lastMoveTimestamp\<close> at 184, \<open>numProposedPlayers\<close> at 224,
  \<open>hookPermissionFlags\<close> at 232 and \<open>seatOccupancyMap\<close> at 240; in word 1 the ruleset
  address at bit 0, \<open>marketDeckMap\<close> at 160, \<open>initialHandSize\<close> at 224 and
  \<open>playersLeftToJoin\<close> at 232. Each field has the type of its width, so every choice of
  field values is a choice of arguments. The top 16 bits of word 1 hold no field and are
  arbitrary (\<open>spare\<close>). \<open>hexValue\<close> reads a string of hex digits back as a number.
\<close>

definition packWord0 ::
  "160 word \<Rightarrow> 8 word \<Rightarrow> 8 word \<Rightarrow> 8 word \<Rightarrow> 40 word \<Rightarrow> 8 word \<Rightarrow> 8 word \<Rightarrow> 16 word \<Rightarrow> int"
where
  "packWord0 creator crd turn stat stamp proposed hooks seats =
     uint creator OR push_bit 160 (uint crd) OR push_bit 168 (uint turn)
     OR push_bit 176 (uint stat) OR push_bit 184 (uint stamp) OR push_bit 224 (uint proposed)
     OR push_bit 232 (uint hooks) OR push_bit 240 (uint seats)"

definition packWord1 :: "160 word \<Rightarrow> 64 word \<Rightarrow> 8 word \<Rightarrow> 8 word \<Rightarrow> 16 word \<Rightarrow> int" where
  "packWord1 rules market handSize leftToJoin spare =
     uint rules OR push_bit 160 (uint market) OR push_bit 224 (uint handSize)
     OR push_bit 232 (uint leftToJoin) OR push_bit 240 (uint spare)"

definition hexDigitValue :: "char \<Rightarrow> nat" where
  "hexDigitValue c =
    (let n = (of_char c :: nat)
     in if 48 \<le> n \<and> n \<le> 57 then n - 48
        else if 97 \<le> n \<and> n \<le> 102 then n - 87
        else if 65 \<le> n \<and> n \<le> 70 then n - 55
        else 0)"

definition hexValue :: "string \<Rightarrow> nat" where
  "hexValue s = foldl (\<lambda>acc c. 16 * acc + hexDigitValue c) 0 s"

subsection \<open>The calls of a run, the answers to them, and the fallback discipline\<close>






text \<open>
  What the RPC layer answered, read off the layer itself. \<open>answersOf rd mk slots tr\<close> are
  the answers of the reader \<open>rd\<close> to one read per slot, the read of position \<open>k\<close> being
  issued after the trace \<open>tr\<close> and the reads of the positions before \<open>k\<close>. \<open>collected\<close> is
  the list of values when every answer is a value, and the first thrown error otherwise.
  \<open>convertedWords\<close> are the answers as words, each converted by \<open>hexToBigIntSafe\<close>, position
  by position. \<open>primaryOutcome\<close> is what the \<open>extsload\<close> strategy answers (the pool, or the
  client when the pool throws), \<open>primaryTrace\<close> the trace after it, and \<open>fallbackOutcome\<close>
  what the per-slot strategy answers after the trace \<open>tr1\<close>: the converted answers of the
  pool, or of the client when an answer of the pool or its conversion throws.
\<close>

definition answersOf ::
  "(trace \<Rightarrow> int \<Rightarrow> 'e + 'a) \<Rightarrow> (int \<Rightarrow> rpc_call) \<Rightarrow> int list \<Rightarrow> trace \<Rightarrow> ('e + 'a) list"
where
  "answersOf rd mk slots tr =
    map (\<lambda>k. rd (tr @ map mk (take k slots)) (slots ! k)) [0..<length slots]"

definition collected :: "('e + 'a) list \<Rightarrow> 'e + 'a list" where
  "collected answers =
    (case filter isl answers of
       [] \<Rightarrow> Inr (map projr answers)
     | thrown # _ \<Rightarrow> Inl (projl thrown))"

definition convertedWords :: "'e viem \<Rightarrow> ('e + string option) list \<Rightarrow> 'e + int list" where
  "convertedWords lib answers =
    (case collected answers of
       Inl e \<Rightarrow> Inl e
     | Inr hexes \<Rightarrow> collected (map (hexToBigIntSafe lib) hexes))"

definition primaryOutcome :: "'e rpc \<Rightarrow> ExtsloadArgs \<Rightarrow> trace \<Rightarrow> 'e + int list" where
  "primaryOutcome client args tr =
    (case readContractBalanced client tr args of
       Inr words \<Rightarrow> Inr words
     | Inl e \<Rightarrow> clientReadContract client (tr @ [ReadContractBalanced args]) args)"

definition primaryTrace :: "'e rpc \<Rightarrow> ExtsloadArgs \<Rightarrow> trace \<Rightarrow> trace" where
  "primaryTrace client args tr =
    (if isl (readContractBalanced client tr args)
     then tr @ [ReadContractBalanced args, ClientReadContract args]
     else tr @ [ReadContractBalanced args])"

definition fallbackOutcome :: "'e rpc \<Rightarrow> 'e viem \<Rightarrow> int list \<Rightarrow> trace \<Rightarrow> 'e + int list" where
  "fallbackOutcome client lib slots tr1 =
    (case convertedWords lib
            (answersOf (getStorageAtBalanced client) GetStorageAtBalanced slots tr1) of
       Inr words \<Rightarrow> Inr words
     | Inl e \<Rightarrow>
         convertedWords lib
           (answersOf (clientGetStorageAt client) ClientGetStorageAt slots
              (tr1 @ map GetStorageAtBalanced slots)))"


text \<open>
  An RPC layer answers from a storage when every answer it gives is the storage's:
  \<open>extsload\<close> answers the words at the slots it was asked (\<open>wordsAt\<close>: the slots listed,
  or the \<open>count\<close> slots from the first one), and a raw read answers a string that
  \<open>hexToBigIntSafe\<close> converts to the word at its slot. Such a layer may still throw.
\<close>

definition wordsAt :: "(int \<Rightarrow> int) \<Rightarrow> ExtsloadArgs \<Rightarrow> int list" where
  "wordsAt storage args =
    (case args of
       SlotCount slot n \<Rightarrow> map (\<lambda>k. storage (slot + int k)) [0..<nat n]
     | SlotList slots \<Rightarrow> map storage slots)"

definition answersFrom :: "(int \<Rightarrow> int) \<Rightarrow> 'e rpc \<Rightarrow> 'e viem \<Rightarrow> bool" where
  "answersFrom storage client lib =
    ((\<forall>t args ws. readContractBalanced client t args = Inr ws \<longrightarrow> ws = wordsAt storage args)
     \<and> (\<forall>t args ws. clientReadContract client t args = Inr ws \<longrightarrow> ws = wordsAt storage args)
     \<and> (\<forall>t slot h. getStorageAtBalanced client t slot = Inr h
            \<longrightarrow> hexToBigIntSafe lib h = Inr (storage slot))
     \<and> (\<forall>t slot h. clientGetStorageAt client t slot = Inr h
            \<longrightarrow> hexToBigIntSafe lib h = Inr (storage slot)))"



section \<open>An example environment\<close>

text \<open>
  A concrete library and RPC layer for the examples. The stand-in for the hash keeps the
  first word of the encoding, and the stand-in for \<open>BigInt\<close> reads it times 16, so that
  game \<open>n\<close> is at slot \<open>16 * n\<close>; the contract stores one game, game 2, whose word 0
  (slot 32) is \<open>0xbeef\<close>, and zero everywhere else. \<open>exampleClient\<close> answers \<open>extsload\<close>
  through the pool; with \<open>noExtsloadClient\<close> every \<open>extsload\<close> call throws and the pool
  answers the raw storage reads; with \<open>deadClient\<close> every call throws.
\<close>

definition exampleLib :: "unit viem" where
  "exampleLib =
    \<lparr>keccak256 = (\<lambda>s. take 64 (drop 2 s)),
     BigInt = (\<lambda>s. 16 * int (hexValue s)),
     getAddress = (\<lambda>s. s),
     hexToBigInt = (\<lambda>s. Inr (int (hexValue (drop 2 s))))\<rparr>"

definition exampleStorage :: "int \<Rightarrow> int" where
  "exampleStorage slot = (if slot = 32 then 48879 else 0)"


definition exampleClient :: "unit rpc" where
  "exampleClient =
    \<lparr>readContractBalanced = (\<lambda>tr args. Inr (wordsAt exampleStorage args)),
     clientReadContract = (\<lambda>tr args. Inl ()),
     getStorageAtBalanced = (\<lambda>tr slot. Inl ()),
     clientGetStorageAt = (\<lambda>tr slot. Inl ())\<rparr>"



section \<open>Properties of the deck map decoder\<close>

lemma and_one_odd: "(c::int) AND 1 \<noteq> 0 \<longleftrightarrow> bit c 0"
  by (simp add: and_one_eq bit_0 mod_2_eq_odd)

lemma indexLoop_filter:
  "indexLoop cursor i maxCards acc =
     acc @ filter (\<lambda>j. bit cursor (j - i)) [i..<nat maxCards]"
proof (induction cursor i maxCards acc rule: indexLoop.induct)
  case (1 cursor i maxCards indexes)
  show ?case
  proof (cases "cursor \<noteq> 0 \<and> int i < maxCards")
    case True
    then have lt: "i < nat maxCards" by linarith
    have shift: "filter (\<lambda>j. bit (drop_bit 1 cursor) (j - Suc i)) [Suc i..<nat maxCards]
        = filter (\<lambda>j. bit cursor (j - i)) [Suc i..<nat maxCards]"
      by (rule filter_cong) (auto simp: bit_drop_bit_eq Suc_diff_Suc)
    have split: "[i..<nat maxCards] = i # [Suc i..<nat maxCards]"
      using lt by (simp add: upt_conv_Cons)
    show ?thesis
      using True 1 shift split
      by (subst indexLoop.simps) (simp add: and_one_odd)
  next
    case False
    then show ?thesis
      by (subst indexLoop.simps) auto
  qed
qed

lemma deckMapToIndexes_filter:
  "deckMapToIndexes d m = filter (bit (drop_bit 2 d)) [0..<nat m]"
  by (simp add: deckMapToIndexes_def decodeDeckMap_def indexLoop_filter)

lemma and_3_mod: "(d::int) AND 3 = d mod 4"
proof -
  have "d AND 3 = take_bit 2 d"
    by (simp add: take_bit_eq_mask mask_eq_exp_minus_1)
  then show ?thesis by (simp add: take_bit_eq_mod)
qed

lemma cardBitSize_eq: "cardBitSize (decodeDeckMap d) = 8 - d mod 4"
  by (simp add: decodeDeckMap_def and_3_mod)

lemma cardBitSize_range: "5 \<le> cardBitSize (decodeDeckMap d) \<and> cardBitSize (decodeDeckMap d) \<le> 8"
proof -
  have "0 \<le> d mod 4" "d mod 4 < 4" by simp_all
  then show ?thesis unfolding cardBitSize_eq by linarith
qed


text \<open>
  Claim C6. For every raw deck-map value, \<open>decodeDeckMap\<close> yields a \<open>cardBitSize\<close> of 8
  minus the value of the lowest two bits (\<open>d mod 4\<close>), so it always lies between 5 and 8;
  a raw value whose low two bits are binary 11 (\<open>4 * k + 3\<close>) yields 5, and one whose low
  two bits are binary 00 (\<open>4 * k\<close>) yields 8.
\<close>

theorem decodeDeckMap_cardBitSize:
  "cardBitSize (decodeDeckMap d) = 8 - d mod 4
   \<and> 5 \<le> cardBitSize (decodeDeckMap d) \<and> cardBitSize (decodeDeckMap d) \<le> 8
   \<and> cardBitSize (decodeDeckMap (4 * k + 3)) = 5
   \<and> cardBitSize (decodeDeckMap (4 * k)) = 8"
  using cardBitSize_range [of d] by (simp add: cardBitSize_eq)





lemma cardBitSize_cases:
  "cardBitSize (decodeDeckMap d) = 5 \<or> cardBitSize (decodeDeckMap d) = 6
   \<or> cardBitSize (decodeDeckMap d) = 7 \<or> cardBitSize (decodeDeckMap d) = 8"
  using cardBitSize_range [of d] by arith

lemma bigint_shl_mask: "0 \<le> k \<Longrightarrow> bigint_shl 1 k - 1 = mask (nat k)"
  by (simp add: bigint_shl_def mask_eq_exp_minus_1)

lemma js_rem_nonneg: "0 < b \<Longrightarrow> js_rem (int a) b = int (a mod nat b)"
  by (cases "a = 0") (simp_all add: js_rem_def zmod_int)

lemma decodeHandCards_map:
  "decodeHandCards d h0 h1 =
     map (handCard (cardBitSize (decodeDeckMap d)) (256 div cardBitSize (decodeDeckMap d))
            (mask (nat (cardBitSize (decodeDeckMap d)))) h0 h1)
         (deckMapToIndexes d defaultMaxCards)"
  using cardBitSize_cases [of d]
  by (auto simp: decodeHandCards_def Let_def bigint_shl_mask)

lemma index_handCard: "index (handCard b c m h0 h1 idx) = idx"
  by (simp add: handCard_def Let_def)

lemma cardValue_handCard:
  assumes "0 < b" "0 < c"
  shows "cardValue (handCard b c (mask (nat b)) h0 h1 idx) =
     take_bit (nat b) (drop_bit ((idx mod nat c) * nat b) (if idx < nat c then h0 else h1))"
proof -
  have off: "js_rem (int idx) c * b = int ((idx mod nat c) * nat b)"
    using assms by (simp add: js_rem_nonneg)
  have lt: "int idx < c \<longleftrightarrow> idx < nat c" using assms by linarith
  show ?thesis
    unfolding handCard_def Let_def off lt
    by (simp add: bigint_shr_def take_bit_eq_mask nat_mult_distrib)
qed

lemma cardValue_handCard_spec:
  assumes "cardBitSize (decodeDeckMap d) = b"
  shows "cardValue (handCard b (256 div b) (mask (nat b)) h0 h1 idx)
       = spec_handField (nat b) h0 h1 idx"
proof -
  have b: "b = 5 \<or> b = 6 \<or> b = 7 \<or> b = 8"
    using cardBitSize_cases [of d] assms by simp
  then have pos: "0 < b" "0 < 256 div b" by auto
  have n: "nat (256 div b) = 256 div nat b" using b by auto
  show ?thesis
    unfolding cardValue_handCard [OF pos] spec_handField_def Let_def n
    by (simp add: take_bit_eq_mod drop_bit_eq_div)
qed

text \<open>
  Claim C8. For every deck-map value and every pair of clear words, \<open>decodeHandCards\<close>
  walks exactly the indices of \<open>deckMapToIndexes\<close> on the same deck map (with the default
  \<open>maxCards\<close>), in their order, and the card at each index is the \<open>cardBitSize\<close>-wide field
  of the specification: from word 0 when the index is below \<open>floor(256 / cardBitSize)\<close> and
  from word 1 otherwise, at bit offset \<open>(index mod cardsPerWord) * cardBitSize\<close>.
\<close>

theorem decodeHandCards_walks_indexes:
  "map index (decodeHandCards dm w0 w1) = deckMapToIndexes dm defaultMaxCards
   \<and> map cardValue (decodeHandCards dm w0 w1)
       = map (spec_handField (nat (cardBitSize (decodeDeckMap dm))) w0 w1)
           (deckMapToIndexes dm defaultMaxCards)"
  by (simp add: decodeHandCards_map index_handCard cardValue_handCard_spec comp_def)

lemma deckMapToIndexes_take_bit:
  "deckMapToIndexes (take_bit 66 d) defaultMaxCards = deckMapToIndexes d defaultMaxCards"
  unfolding deckMapToIndexes_filter defaultMaxCards_def
  by (rule filter_cong) (auto simp: bit_simps)

lemma cardBitSize_take_bit:
  "cardBitSize (decodeDeckMap (take_bit 66 d)) = cardBitSize (decodeDeckMap d)"
proof -
  have "take_bit 2 (take_bit 66 d) = take_bit 2 d" by simp
  then have "take_bit 66 d mod 4 = d mod 4" by (simp add: take_bit_eq_mod)
  then show ?thesis by (simp add: cardBitSize_eq)
qed

text \<open>
  Claim C10. For every deck-map value and every pair of clear words, \<open>decodeHandCards\<close>
  returns at most 64 cards and every returned index is below 64; the set bits of
  \<open>mapBits\<close> at positions 64 and above are ignored (the result only depends on the low
  66 bits of the raw deck map, two of size metadata and 64 of \<open>mapBits\<close>), although the
  reference deck ordering has 54 entries only.
\<close>

theorem decodeHandCards_at_most_64:
  "length (decodeHandCards dm w0 w1) \<le> 64
   \<and> (\<forall>c \<in> set (decodeHandCards dm w0 w1). index c < 64)
   \<and> decodeHandCards (take_bit 66 dm) w0 w1 = decodeHandCards dm w0 w1
   \<and> length WHOT_DECK = 54"
proof -
  have len: "length (deckMapToIndexes dm defaultMaxCards) \<le> 64"
    unfolding deckMapToIndexes_filter defaultMaxCards_def
    using length_filter_le [of "bit (drop_bit 2 dm)" "[0..<64]"] by simp
  have idx: "\<forall>i \<in> set (deckMapToIndexes dm defaultMaxCards). i < 64"
    by (simp add: deckMapToIndexes_filter defaultMaxCards_def)
  have eq: "decodeHandCards (take_bit 66 dm) w0 w1 = decodeHandCards dm w0 w1"
    by (simp add: decodeHandCards_map deckMapToIndexes_take_bit cardBitSize_take_bit)
  have deck: "length WHOT_DECK = 54" by (simp add: WHOT_DECK_def)
  from len idx eq deck show ?thesis
    by (auto simp: decodeHandCards_map index_handCard)
qed

text \<open>
  Claim C7 as stated asks for a deck map whose derived \<open>cardBitSize\<close> is 0 and on which
  \<open>decodeHandCards\<close> returns the empty list. There is none: the subtrahend is two bits
  wide, so it is never 8.
\<close>

theorem no_zero_cardBitSize_counterexample:
  "\<not> (\<exists>dm w0 w1.
        cardBitSize (decodeDeckMap dm) = 0 \<and> decodeHandCards dm w0 w1 = [])"
proof
  assume "\<exists>dm w0 w1.
        cardBitSize (decodeDeckMap dm) = 0 \<and> decodeHandCards dm w0 w1 = []"
  then obtain d where "cardBitSize (decodeDeckMap d) = 0" by blast
  with cardBitSize_range [of d] show False by simp
qed

text \<open>
  Claim C7, amended. For every integer deck map the derived \<open>cardBitSize\<close> lies between 5
  and 8, so the guard of \<open>decodeHandCards\<close> against a \<open>cardBitSize\<close> of zero or above 32
  is never taken. On an integer deck map \<open>decodeHandCards\<close> returns one card for each
  index of \<open>deckMapToIndexes\<close>, and returns the empty list exactly when that index list
  is empty, as it is on deck map 0.
\<close>

theorem decodeHandCards_guard_unreachable:
  "5 \<le> cardBitSize (decodeDeckMap dm) \<and> cardBitSize (decodeDeckMap dm) \<le> 8
   \<and> length (decodeHandCards dm w0 w1)
       = length (deckMapToIndexes dm defaultMaxCards)
   \<and> (decodeHandCards dm w0 w1 = []
        \<longleftrightarrow> deckMapToIndexes dm defaultMaxCards = [])
   \<and> decodeHandCards 0 w0 w1 = []"
proof -
  have "deckMapToIndexes 0 defaultMaxCards = []"
    by (simp add: deckMapToIndexes_filter defaultMaxCards_def)
  then show ?thesis
    using cardBitSize_range [of dm] by (simp add: decodeHandCards_map)
qed


theorem decodeHandCards_at_most_64_witness:
  "map index (decodeHandCards (2 ^ 66 + 44) 0x0a0b0c0d 0) = [0, 1, 3]
   \<and> length (decodeHandCards (2 ^ 66 + 44) 0x0a0b0c0d 0) \<le> 64
   \<and> decodeHandCards (take_bit 66 (2 ^ 66 + 44)) 0x0a0b0c0d 0
       = decodeHandCards (2 ^ 66 + 44) 0x0a0b0c0d 0"
proof -
  have e: "map index (decodeHandCards (2 ^ 66 + 44) 0x0a0b0c0d 0) = [0, 1, 3]"
    by code_simp
  from decodeHandCards_at_most_64 [of "2 ^ 66 + 44" "0x0a0b0c0d" 0] e
  show ?thesis by blast
qed

section \<open>Properties of the storage decoder\<close>

lemma loadBits_take_bit: "loadBits w off (push_bit n 1 - 1) = take_bit n (drop_bit off w)"
  by (simp add: loadBits_def take_bit_eq_mask mask_eq_exp_minus_1)

lemmas mask_defs = ADDRESS_MASK_def U64_MASK_def U40_MASK_def U16_MASK_def U8_MASK_def

lemma field_same:
  "take_bit LENGTH('a) (drop_bit k (push_bit k (uint (w::'a::len word)))) = uint w"
  by (simp add: drop_bit_push_bit take_bit_int_eq_self)

lemma field_below:
  "k + LENGTH('a) \<le> off \<Longrightarrow> drop_bit off (push_bit k (uint (w::'a::len word))) = 0"
  by (rule bit_eqI) (auto simp: bit_simps dest: bit_imp_le_length)

lemma field_above:
  "off + n \<le> k \<Longrightarrow> take_bit n (drop_bit off (push_bit k (x::int))) = 0"
  by (rule bit_eqI) (auto simp: bit_simps)

lemma field_low_same: "take_bit LENGTH('a) (uint (w::'a::len word)) = uint w"
  by (simp add: take_bit_int_eq_self)

lemma field_low_below:
  "LENGTH('a) \<le> off \<Longrightarrow> drop_bit off (uint (w::'a::len word)) = 0"
  by (rule bit_eqI) (auto simp: bit_simps dest: bit_imp_le_length)

lemmas field_simps0 = field_same field_below field_above field_low_same field_low_below

lemma w0_creator: "take_bit 160 (drop_bit 0 (packWord0 a b c d e f g h)) = uint a"
  unfolding packWord0_def
  using field_low_same [of a] by (simp add: field_above [where off=0, simplified])

lemma w0_callCard: "take_bit 8 (drop_bit 160 (packWord0 a b c d e f g h)) = uint b"
  unfolding packWord0_def
  using field_same [of 160 b] by (simp add: field_below field_above field_low_below)

lemma w0_turn: "take_bit 8 (drop_bit 168 (packWord0 a b c d e f g h)) = uint c"
  unfolding packWord0_def
  using field_same [of 168 c] by (simp add: field_below field_above field_low_below)

lemma w0_status: "take_bit 8 (drop_bit 176 (packWord0 a b c d e f g h)) = uint d"
  unfolding packWord0_def
  using field_same [of 176 d] by (simp add: field_below field_above field_low_below)

lemma w0_stamp: "take_bit 40 (drop_bit 184 (packWord0 a b c d e f g h)) = uint e"
  unfolding packWord0_def
  using field_same [of 184 e] by (simp add: field_below field_above field_low_below)

lemma w0_proposed: "take_bit 8 (drop_bit 224 (packWord0 a b c d e f g h)) = uint f"
  unfolding packWord0_def
  using field_same [of 224 f] by (simp add: field_below field_above field_low_below)

lemma w0_hooks: "take_bit 8 (drop_bit 232 (packWord0 a b c d e f g h)) = uint g"
  unfolding packWord0_def
  using field_same [of 232 g] by (simp add: field_below field_above field_low_below)

lemma w0_seats: "take_bit 16 (drop_bit 240 (packWord0 a b c d e f g h)) = uint h"
  unfolding packWord0_def
  using field_same [of 240 h] by (simp add: field_below field_above field_low_below)

lemma w1_rules: "take_bit 160 (drop_bit 0 (packWord1 a b c d e)) = uint a"
  unfolding packWord1_def
  using field_low_same [of a] by (simp add: field_above [where off=0, simplified])

lemma w1_market: "take_bit 64 (drop_bit 160 (packWord1 a b c d e)) = uint b"
  unfolding packWord1_def
  using field_same [of 160 b] by (simp add: field_below field_above field_low_below)

lemma w1_handSize: "take_bit 8 (drop_bit 224 (packWord1 a b c d e)) = uint c"
  unfolding packWord1_def
  using field_same [of 224 c] by (simp add: field_below field_above field_low_below)

lemma w1_leftToJoin: "take_bit 8 (drop_bit 232 (packWord1 a b c d e)) = uint d"
  unfolding packWord1_def
  using field_same [of 232 d] by (simp add: field_below field_above field_low_below)

lemmas load_simps = loadBits_take_bit [of _ _ 160, folded ADDRESS_MASK_def]
  loadBits_take_bit [of _ _ 64, folded U64_MASK_def]
  loadBits_take_bit [of _ _ 40, folded U40_MASK_def]
  loadBits_take_bit [of _ _ 16, folded U16_MASK_def]
  loadBits_take_bit [of _ _ 8, folded U8_MASK_def]

lemma hexDigitValue_table:
  "map (\<lambda>d. hexDigitValue (hexDigit d)) [0..<16] = [0..<16]"
  by (simp add: hexDigitValue_def hexDigit_def upt_rec)

lemma hexDigitValue_hexDigit:
  assumes "d < 16"
  shows "hexDigitValue (hexDigit d) = d"
proof -
  have "map (\<lambda>d. hexDigitValue (hexDigit d)) [0..<16] ! d = [0..<16] ! d"
    by (simp only: hexDigitValue_table)
  then show ?thesis using assms by (simp del: upt_Suc)
qed

lemma hexValue_snoc: "hexValue (s @ [c]) = 16 * hexValue s + hexDigitValue c"
  by (simp add: hexValue_def)

lemma hexValue_hexNat: "hexValue (hexNat n) = n"
proof (induction n rule: hexNat.induct)
  case (1 n)
  show ?case
  proof (cases "n < 16")
    case True
    then show ?thesis
      by (subst hexNat.simps) (simp add: hexValue_def hexDigitValue_hexDigit)
  next
    case False
    with 1 show ?thesis
      by (subst hexNat.simps) (simp add: hexValue_snoc hexDigitValue_hexDigit)
  qed
qed

lemma hexValue_replicate_zero: "hexValue (replicate k CHR ''0'') = 0"
proof (induction k)
  case 0
  show ?case by (simp add: hexValue_def)
next
  case (Suc k)
  have "replicate (Suc k) CHR ''0'' = replicate k CHR ''0'' @ [CHR ''0'']"
    by (simp add: replicate_append_same)
  then show ?case
    using Suc by (simp only: hexValue_snoc) (simp add: hexDigitValue_def)
qed

lemma hexValue_zeros: "hexValue (replicate k CHR ''0'' @ s) = hexValue s"
  using hexValue_replicate_zero [of k] by (simp add: hexValue_def)

lemma length_hexNat: "0 < k \<Longrightarrow> n < 16 ^ k \<Longrightarrow> length (hexNat n) \<le> k"
proof (induction n arbitrary: k rule: hexNat.induct)
  case (1 n)
  show ?case
  proof (cases "n < 16")
    case True
    with 1 show ?thesis by (subst hexNat.simps) simp
  next
    case False
    then obtain j where k: "k = Suc j" "0 < j"
      using 1(2,3) by (cases k; cases "k - 1") auto
    have "n div 16 < 16 ^ j" using 1(3) k by (simp add: less_mult_imp_div_less mult.commute)
    with 1(1) False k have "length (hexNat (n div 16)) \<le> j" by simp
    with False k show ?thesis by (subst hexNat.simps) simp
  qed
qed

lemma unat160_bound: "unat (a::160 word) < 16 ^ 40"
proof -
  have "unat a < 2 ^ LENGTH(160)" by (rule unsigned_less)
  also have "(2::nat) ^ LENGTH(160) = 16 ^ 40" by simp
  finally show ?thesis .
qed

lemma length_hexNat_word: "length (hexNat (unat (a::160 word))) \<le> 40"
  by (rule length_hexNat [OF _ unat160_bound]) simp

lemma toString16_word: "toString16 (uint (a::160 word)) = hexNat (unat a)"
  by (simp add: toString16_def)

lemma addressHex_word:
  "length (addressHex (uint (a::160 word))) = 42
   \<and> take 2 (addressHex (uint a)) = ''0x''
   \<and> hexValue (drop 2 (addressHex (uint a))) = unat a"
  using length_hexNat_word [of a]
  unfolding addressHex_def padStart_def toString16_word
  by (simp add: hexValue_zeros hexValue_hexNat)

lemma addressHex_zero: "addressHex 0 = ''0x0000000000000000000000000000000000000000''"
  by code_simp

lemma countLoop_sum:
  "0 \<le> r \<Longrightarrow> r < 2 ^ n \<Longrightarrow>
     countLoop r c = c + (\<Sum>i<n. of_bool (bit r i))"
proof (induction n arbitrary: r c)
  case 0
  then have "r = 0" by simp
  then show ?case by (subst countLoop.simps) simp
next
  case (Suc n)
  show ?case
  proof (cases "r > 0")
    case False
    with Suc.prems have "r = 0" by simp
    then show ?thesis by (subst countLoop.simps) simp
  next
    case True
    have half: "0 \<le> drop_bit 1 r" "drop_bit 1 r < 2 ^ n"
      using Suc.prems by (simp_all add: drop_bit_eq_div)
    have low: "r AND 1 = of_bool (bit r 0)"
      by (simp add: and_one_eq bit_0 mod_2_eq_odd)
    have shift: "(\<Sum>i<n. of_bool (bit (drop_bit 1 r) i)) = (\<Sum>i<n. (of_bool (bit r (Suc i)) :: int))"
      by (simp add: bit_drop_bit_eq)
    have "countLoop r c = countLoop (drop_bit 1 r) (c + (r AND 1))"
      using True by (subst countLoop.simps) simp
    also have "\<dots> = c + (r AND 1) + (\<Sum>i<n. of_bool (bit (drop_bit 1 r) i))"
      by (rule Suc.IH [OF half])
    also have "\<dots> = c + (\<Sum>i<Suc n. of_bool (bit r i))"
      unfolding low shift by (simp only: sum.lessThan_Suc_shift add.assoc)
    finally show ?thesis .
  qed
qed

lemma sum_of_bool_card:
  "(\<Sum>i<n. (of_bool (P i) :: int)) = int (card {i. i < (n::nat) \<and> P i})"
proof (induction n)
  case 0
  show ?case by simp
next
  case (Suc n)
  have split: "{i. i < Suc n \<and> P i}
      = (if P n then insert n {i. i < n \<and> P i} else {i. i < n \<and> P i})"
    by (auto simp: less_Suc_eq)
  have "card {i. i < Suc n \<and> P i} = (if P n then 1 else 0) + card {i. i < n \<and> P i}"
    unfolding split by simp
  with Suc show ?case by simp
qed

lemma countPlayersFromStore_card:
  assumes "0 \<le> m" "m < 2 ^ 16"
  shows "countPlayersFromStore m = int (card {i. 1 \<le> i \<and> i \<le> 15 \<and> bit m i})"
proof -
  have half: "0 \<le> drop_bit 1 m" "drop_bit 1 m < 2 ^ 15"
    using assms by (simp_all add: drop_bit_eq_div)
  have "countPlayersFromStore m = (\<Sum>i<15. of_bool (bit (drop_bit 1 m) i))"
    unfolding countPlayersFromStore_def using countLoop_sum [OF half, of 0] by simp
  also have "\<dots> = int (card {i. i < 15 \<and> bit m (Suc i)})"
    by (simp add: sum_of_bool_card bit_drop_bit_eq)
  also have "card {i. i < 15 \<and> bit m (Suc i)} = card (Suc ` {i. i < 15 \<and> bit m (Suc i)})"
    by (simp add: card_image)
  also have "Suc ` {i. i < 15 \<and> bit m (Suc i)} = {i. 1 \<le> i \<and> i \<le> 15 \<and> bit m i}"
  proof (rule set_eqI)
    fix j
    show "j \<in> Suc ` {i. i < 15 \<and> bit m (Suc i)} \<longleftrightarrow> j \<in> {i. 1 \<le> i \<and> i \<le> 15 \<and> bit m i}"
      by (cases j) auto
  qed
  finally show ?thesis .
qed

lemma playerStoreMap_range:
  "0 \<le> playerStoreMap (decodeGameData lib raw0 raw1)
   \<and> playerStoreMap (decodeGameData lib raw0 raw1) < 2 ^ 16"
  using take_bit_int_less_exp [of 16 "drop_bit 240 raw0"]
  by (simp add: decodeGameData_def Let_def load_simps)

text \<open>
  Claim C3. For every pair of input words, the record that \<open>decodeGameData\<close> returns has
  \<open>playersJoined\<close> equal to the number of set bits at the positions 1 to 15 of its
  16-bit \<open>playerStoreMap\<close> (the seat occupancy map, bits 240 to 255 of word 0; bit 0 of
  the map is not counted), and \<open>maxPlayers\<close> equal to
  \<open>playersJoined + playersLeftToJoin\<close>.
\<close>

theorem decodeGameData_playersJoined:
  "playersJoined (decodeGameData lib raw0 raw1)
     = int (card {i. 1 \<le> i \<and> i \<le> 15 \<and> bit (playerStoreMap (decodeGameData lib raw0 raw1)) i})
   \<and> maxPlayers (decodeGameData lib raw0 raw1)
     = playersJoined (decodeGameData lib raw0 raw1) + playersLeftToJoin (decodeGameData lib raw0 raw1)
   \<and> playerStoreMap (decodeGameData lib raw0 raw1) = (raw0 div 2 ^ 240) mod 2 ^ 16"
proof -
  have m: "playerStoreMap (decodeGameData lib raw0 raw1) = take_bit 16 (drop_bit 240 raw0)"
    by (simp add: decodeGameData_def Let_def load_simps)
  have j: "playersJoined (decodeGameData lib raw0 raw1)
      = countPlayersFromStore (take_bit 16 (drop_bit 240 raw0))"
    by (simp add: decodeGameData_def Let_def load_simps)
  have c: "countPlayersFromStore (take_bit 16 (drop_bit 240 raw0))
      = int (card {i. 1 \<le> i \<and> i \<le> 15 \<and> bit (take_bit 16 (drop_bit 240 raw0)) i})"
    using take_bit_int_less_exp [of 16 "drop_bit 240 raw0"]
    by (intro countPlayersFromStore_card) simp_all
  have s: "maxPlayers (decodeGameData lib raw0 raw1)
     = playersJoined (decodeGameData lib raw0 raw1) + playersLeftToJoin (decodeGameData lib raw0 raw1)"
    by (simp add: decodeGameData_def Let_def)
  have d: "take_bit 16 (drop_bit 240 raw0) = (raw0 div 2 ^ 240) mod 2 ^ 16"
    by (simp only: take_bit_eq_mod drop_bit_eq_div)
  from s d show ?thesis
    unfolding m j c by simp
qed

lemma countPlayersFromStore_zero: "countPlayersFromStore 0 = 0"
  unfolding countPlayersFromStore_def by (subst countLoop.simps) simp

lemma decodeGameData_zero:
  "gameCreator (decodeGameData lib 0 0)
     = getAddress lib ''0x0000000000000000000000000000000000000000''
   \<and> status (decodeGameData lib 0 0) = 0
   \<and> playersJoined (decodeGameData lib 0 0) = 0
   \<and> maxPlayers (decodeGameData lib 0 0) = 0"
  by (simp add: decodeGameData_def Let_def load_simps toAddress_def addressHex_zero
      countPlayersFromStore_zero)

lemma decodeGameData_word0:
  fixes creator :: "160 word" and crd turn stat stamp proposed hooks seats raw1 lib
  defines "g \<equiv> decodeGameData lib (packWord0 creator crd turn stat stamp proposed hooks seats) raw1"
  shows "gameCreator g = getAddress lib (addressHex (uint creator))"
    and "callCard g = uint crd"
    and "playerTurnIdx g = uint turn"
    and "status g = uint stat"
    and "lastMoveTimestamp g = uint stamp"
    and "numProposedPlayers g = uint proposed"
    and "hookPermissions g = uint hooks"
    and "playerStoreMap g = uint seats"
  unfolding g_def decodeGameData_def Let_def load_simps toAddress_def
  by (simp_all add: w0_creator [simplified] w0_callCard w0_turn w0_status w0_stamp w0_proposed
      w0_hooks w0_seats)

lemma decodeGameData_word1:
  fixes rules :: "160 word" and market handSize leftToJoin spare raw0 lib
  defines "g \<equiv> decodeGameData lib raw0 (packWord1 rules market handSize leftToJoin spare)"
  shows "ruleset g = getAddress lib (addressHex (uint rules))"
    and "marketDeckMap g = uint market"
    and "initialHandSize g = uint handSize"
    and "playersLeftToJoin g = uint leftToJoin"
  unfolding g_def decodeGameData_def Let_def load_simps toAddress_def
  by (simp_all add: w1_rules [simplified] w1_market w1_handSize w1_leftToJoin)

text \<open>
  Claim C2. For every 160-bit creator address and every choice of the other fields,
  packed into two words at their documented bit offsets, \<open>decodeGameData\<close> recovers
  exactly the packed values. The two addresses come back as the strings \<open>getAddress\<close>
  makes of their 40-digit hex renderings, which read back as the packed addresses.
  \<open>decodeGameData 0 0\<close> has the all-zero creator address, status 0, no player joined
  and \<open>maxPlayers\<close> 0.
\<close>

theorem decodeGameData_roundtrip:
  "(let g = decodeGameData lib
              (packWord0 creator crd turn stat stamp proposed hooks seats)
              (packWord1 rules market handSize leftToJoin spare)
    in gameCreator g = getAddress lib (addressHex (uint creator))
       \<and> hexValue (drop 2 (addressHex (uint creator))) = unat creator
       \<and> callCard g = uint crd
       \<and> playerTurnIdx g = uint turn
       \<and> status g = uint stat
       \<and> lastMoveTimestamp g = uint stamp
       \<and> numProposedPlayers g = uint proposed
       \<and> hookPermissions g = uint hooks
       \<and> playerStoreMap g = uint seats
       \<and> ruleset g = getAddress lib (addressHex (uint rules))
       \<and> hexValue (drop 2 (addressHex (uint rules))) = unat rules
       \<and> marketDeckMap g = uint market
       \<and> initialHandSize g = uint handSize
       \<and> playersLeftToJoin g = uint leftToJoin)
   \<and> gameCreator (decodeGameData lib 0 0)
       = getAddress lib ''0x0000000000000000000000000000000000000000''
   \<and> status (decodeGameData lib 0 0) = 0
   \<and> playersJoined (decodeGameData lib 0 0) = 0
   \<and> maxPlayers (decodeGameData lib 0 0) = 0"
  unfolding Let_def
  using addressHex_word [of creator] addressHex_word [of rules] decodeGameData_zero [of lib]
  by (simp only: decodeGameData_word0 decodeGameData_word1 simp_thms)

section \<open>Slot derivation\<close>

lemma length_hexNat_pos: "0 < length (hexNat n)"
  by (subst hexNat.simps) simp

lemma word256_bound: "0 \<le> v \<Longrightarrow> v < 2 ^ 256 \<Longrightarrow> nat v < 16 ^ 64"
proof -
  assume "0 \<le> v" "v < 2 ^ 256"
  then have "nat v < nat (2 ^ 256)" by linarith
  also have "nat (2 ^ 256) = (2::nat) ^ 256" by simp
  also have "(2::nat) ^ 256 = 16 ^ 64" by simp
  finally show ?thesis .
qed

lemma abiWord_props:
  assumes "0 \<le> v" "v < 2 ^ 256"
  shows "length (abiWord v) = 64" "hexValue (abiWord v) = nat v"
proof -
  have "length (hexNat (nat v)) \<le> 64"
    by (rule length_hexNat [OF _ word256_bound [OF assms]]) simp
  then show "length (abiWord v) = 64"
    using assms by (simp add: abiWord_def padStart_def toString16_def)
  show "hexValue (abiWord v) = nat v"
    using assms by (simp add: abiWord_def padStart_def toString16_def hexValue_zeros hexValue_hexNat)
qed

lemma abiHex_pair: "abiHex [a, b] = ''0x'' @ abiWord a @ abiWord b"
  by (simp add: abiHex_def)

lemma abiHex_single: "abiHex [a] = ''0x'' @ abiWord a"
  by (simp add: abiHex_def)

lemma abiHex_first:
  assumes "0 \<le> a" "a < 2 ^ 256"
  shows "take 64 (drop 2 (abiHex (a # rest))) = abiWord a"
  using abiWord_props(1) [OF assms] by (simp add: abiHex_def)

lemma abiHex_pair_shape:
  assumes "0 \<le> a" "a < 2 ^ 256" "0 \<le> b" "b < 2 ^ 256"
  shows "length (abiHex [a, b]) = 130"
    and "take 2 (abiHex [a, b]) = ''0x''"
    and "hexValue (take 64 (drop 2 (abiHex [a, b]))) = nat a"
    and "hexValue (drop 66 (abiHex [a, b])) = nat b"
  using abiWord_props [OF assms(1,2)] abiWord_props [OF assms(3,4)]
  by (simp_all add: abiHex_pair)

lemma abiHex_pair_inj:
  assumes "0 \<le> a" "a < 2 ^ 256" "0 \<le> a'" "a' < 2 ^ 256" "abiHex [a, c] = abiHex [a', c]"
  shows "a = a'"
proof -
  have "take 64 (drop 2 (abiHex [a, c])) = take 64 (drop 2 (abiHex [a', c]))"
    using assms(5) by simp
  then have "abiWord a = abiWord a'"
    by (simp only: abiHex_first [OF assms(1,2)] abiHex_first [OF assms(3,4)])
  then have "hexValue (abiWord a) = hexValue (abiWord a')" by simp
  then have "nat a = nat a'"
    by (simp only: abiWord_props(2) [OF assms(1,2)] abiWord_props(2) [OF assms(3,4)])
  with assms(1,3) show ?thesis by simp
qed

lemma gameDataSlot_eq:
  "gameDataSlot lib gameId =
     (if 0 \<le> gameId \<and> gameId < 2 ^ 256
      then Inr (BigInt lib (keccak256 lib (abiHex [gameId, 2])))
      else Inl IntegerOutOfRangeError)"
  by (simp add: gameDataSlot_def encodeAbiParameters_def GAME_DATA_SLOT_def)

lemma commitmentSlot_eq:
  "commitmentSlot lib gameId =
     (if 0 \<le> gameId \<and> gameId < 2 ^ 256
      then Inr (BigInt lib (keccak256 lib (abiHex [gameId, 0])))
      else Inl IntegerOutOfRangeError)"
  by (simp add: commitmentSlot_def encodeAbiParameters_def COMMITMENT_SLOT_def)

lemma playerDataSlot_eq:
  "playerDataSlot lib gameId playerIndex =
     (case gameDataSlot lib gameId of
        Inl err \<Rightarrow> Inl err
      | Inr gameSlot \<Rightarrow>
          if 0 \<le> gameSlot + 4 \<and> gameSlot + 4 < 2 ^ 256
          then Inr (BigInt lib (keccak256 lib (abiHex [gameSlot + 4])) + playerIndex * 3)
          else Inl IntegerOutOfRangeError)"
  by (simp add: playerDataSlot_def encodeAbiParameters_def PLAYER_DATA_OFFSET_def Let_def
      split: sum.splits)

lemma gameDataSlot_range: "gameDataSlot lib gameId = Inr slot \<Longrightarrow> 0 \<le> gameId \<and> gameId < 2 ^ 256"
  by (simp add: gameDataSlot_eq split: if_splits)

text \<open>
  Claim C9, amended. For every \<open>gameId\<close> from 0 to \<open>2^256 - 1\<close>, \<open>gameDataSlot\<close> is the hash
  of the ABI encoding of the pair of \<open>gameId\<close> and the declared slot of the game mapping,
  2, read as an integer; for a \<open>gameId\<close> outside that range the encoder throws
  \<open>IntegerOutOfRangeError\<close>. \<open>playerDataSlot\<close> throws when \<open>gameDataSlot\<close> does or when
  \<open>gameDataSlot gameId + 4\<close> does not fit 256 bits, and is otherwise the hash of the ABI
  encoding of \<open>gameDataSlot gameId + 4\<close> (4 is the offset of the player mapping in the game
  struct) plus three times \<open>playerIndex\<close>, not reduced modulo \<open>2^256\<close>. The encoding of the
  pair is \<open>0x\<close> and 128 hex digits, the first 64 reading back as \<open>gameId\<close> and the last
  64 as 2, so that two game identifiers with the same encoding are equal.
\<close>

theorem slot_derivation:
  "gameDataSlot lib gameId =
     (if 0 \<le> gameId \<and> gameId < 2 ^ 256
      then Inr (BigInt lib (keccak256 lib (abiHex [gameId, 2])))
      else Inl IntegerOutOfRangeError)
   \<and> playerDataSlot lib gameId playerIndex =
     (case gameDataSlot lib gameId of
        Inl err \<Rightarrow> Inl err
      | Inr gameSlot \<Rightarrow>
          if 0 \<le> gameSlot + 4 \<and> gameSlot + 4 < 2 ^ 256
          then Inr (BigInt lib (keccak256 lib (abiHex [gameSlot + 4])) + playerIndex * 3)
          else Inl IntegerOutOfRangeError)
   \<and> (0 \<le> gameId \<and> gameId < 2 ^ 256 \<longrightarrow>
        length (abiHex [gameId, 2]) = 130
        \<and> take 2 (abiHex [gameId, 2]) = ''0x''
        \<and> hexValue (take 64 (drop 2 (abiHex [gameId, 2]))) = nat gameId
        \<and> hexValue (drop 66 (abiHex [gameId, 2])) = 2)
   \<and> (0 \<le> gameId \<and> gameId < 2 ^ 256 \<and> 0 \<le> other \<and> other < 2 ^ 256
        \<and> abiHex [gameId, 2] = abiHex [other, 2] \<longrightarrow> gameId = other)"
proof (intro conjI impI)
  show "gameDataSlot lib gameId =
     (if 0 \<le> gameId \<and> gameId < 2 ^ 256
      then Inr (BigInt lib (keccak256 lib (abiHex [gameId, 2])))
      else Inl IntegerOutOfRangeError)"
    by (rule gameDataSlot_eq)
  show "playerDataSlot lib gameId playerIndex =
     (case gameDataSlot lib gameId of
        Inl err \<Rightarrow> Inl err
      | Inr gameSlot \<Rightarrow>
          if 0 \<le> gameSlot + 4 \<and> gameSlot + 4 < 2 ^ 256
          then Inr (BigInt lib (keccak256 lib (abiHex [gameSlot + 4])) + playerIndex * 3)
          else Inl IntegerOutOfRangeError)"
    by (rule playerDataSlot_eq)
next
  assume r: "0 \<le> gameId \<and> gameId < 2 ^ 256"
  have two: "(0::int) \<le> 2" "(2::int) < 2 ^ 256" by simp_all
  from r show "length (abiHex [gameId, 2]) = 130"
    using abiHex_pair_shape(1) [OF _ _ two, of gameId] by simp
  from r show "take 2 (abiHex [gameId, 2]) = ''0x''"
    using abiHex_pair_shape(2) [OF _ _ two, of gameId] by simp
  from r show "hexValue (take 64 (drop 2 (abiHex [gameId, 2]))) = nat gameId"
    using abiHex_pair_shape(3) [OF _ _ two, of gameId] by simp
  from r show "hexValue (drop 66 (abiHex [gameId, 2])) = 2"
    using abiHex_pair_shape(4) [OF _ _ two, of gameId] by simp
next
  assume "0 \<le> gameId \<and> gameId < 2 ^ 256 \<and> 0 \<le> other \<and> other < 2 ^ 256
        \<and> abiHex [gameId, 2] = abiHex [other, 2]"
  then show "gameId = other" using abiHex_pair_inj [of gameId other 2] by blast
qed

lemma ex_fields:
  "keccak256 exampleLib s = take 64 (drop 2 s)"
  "BigInt exampleLib s = 16 * int (hexValue s)"
  "getAddress exampleLib s = s"
  "hexToBigInt exampleLib s = Inr (int (hexValue (drop 2 s)))"
  by (simp_all add: exampleLib_def)

lemma ex_hash:
  assumes "0 \<le> a" "a < 2 ^ 256"
  shows "BigInt exampleLib (keccak256 exampleLib (abiHex (a # rest))) = 16 * a"
  using assms abiWord_props(2) [OF assms]
  by (simp add: ex_fields abiHex_first)

lemma ex_slot:
  assumes "0 \<le> g" "g < 2 ^ 256"
  shows "gameDataSlot exampleLib g = Inr (16 * g)"
  using assms by (simp add: gameDataSlot_eq ex_hash)

lemma ex_player_slot:
  assumes "0 \<le> g" "16 * g + 4 < 2 ^ 256"
  shows "playerDataSlot exampleLib g p = Inr (16 * (16 * g + 4) + p * 3)"
proof -
  have g: "g < 2 ^ 256" using assms by linarith
  have b: "0 \<le> 16 * g + 4" using assms by linarith
  have "playerDataSlot exampleLib g p
      = Inr (BigInt exampleLib (keccak256 exampleLib (abiHex [16 * g + 4])) + p * 3)"
    using b assms(2) by (simp add: playerDataSlot_eq ex_slot [OF assms(1) g])
  then show ?thesis by (simp only: ex_hash [OF b assms(2)])
qed

text \<open>
  Claim C9 as stated has both functions total over all non-negative inputs. They are
  not: \<open>2^256\<close> is a non-negative \<open>bigint\<close> on which the encoder, and with it both slot
  functions, throw.
\<close>

theorem slot_derivation_out_of_range_counterexample:
  "gameDataSlot exampleLib (2 ^ 256) = Inl IntegerOutOfRangeError
   \<and> playerDataSlot exampleLib (2 ^ 256) 0 = Inl IntegerOutOfRangeError"
  by (simp add: playerDataSlot_eq gameDataSlot_eq)

theorem slot_derivation_witness:
  "gameDataSlot exampleLib 2 = Inr 32
   \<and> playerDataSlot exampleLib 2 1 = Inr 579
   \<and> length (abiHex [2, 2]) = 130
   \<and> hexValue (take 64 (drop 2 (abiHex [2, 2]))) = 2
   \<and> abiHex [2, 2] \<noteq> abiHex [3, 2]
   \<and> gameDataSlot exampleLib (2 ^ 256) = Inl IntegerOutOfRangeError"
proof -
  have r: "(0::int) \<le> 2 \<and> (2::int) < 2 ^ 256" by simp
  have e: "abiHex [2, 2] \<noteq> abiHex [3, 2]"
  proof
    assume "abiHex [2, 2] = abiHex [3, 2]"
    then have "(0::int) \<le> 2 \<and> (2::int) < 2 ^ 256 \<and> (0::int) \<le> 3 \<and> (3::int) < 2 ^ 256
        \<and> abiHex [2, 2] = abiHex [3, 2]"
      by simp
    from slot_derivation [where gameId = 2 and other = 3, THEN conjunct2, THEN conjunct2,
        THEN conjunct2, THEN mp, OF this]
    show False by simp
  qed
  note t = slot_derivation [where lib = exampleLib and gameId = 2 and playerIndex = 1]
  have a: "length (abiHex [2, 2]) = 130 \<and> hexValue (take 64 (drop 2 (abiHex [2, 2]))) = 2"
    using t [THEN conjunct2, THEN conjunct2, THEN conjunct1, THEN mp, OF r] by simp
  have b: "gameDataSlot exampleLib (2 ^ 256) = Inl IntegerOutOfRangeError"
    using slot_derivation [where lib = exampleLib and gameId = "2 ^ 256", THEN conjunct1]
    by simp
  have c: "gameDataSlot exampleLib 2 = Inr 32" by (simp add: ex_slot)
  have d: "playerDataSlot exampleLib 2 1 = Inr 579" by (simp add: ex_player_slot)
  from a b c d e show ?thesis by simp
qed

section \<open>What the reads answer and which calls they issue\<close>







lemma collected_simps:
  "collected [] = Inr []"
  "collected (Inl e # xs) = Inl e"
  "collected (Inr v # xs) = (case collected xs of Inl e \<Rightarrow> Inl e | Inr vs \<Rightarrow> Inr (v # vs))"
  by (simp_all add: collected_def split: list.splits)

lemma collected_Inr_iff: "collected xs = Inr vs \<longleftrightarrow> xs = map Inr vs"
proof (induction xs arbitrary: vs)
  case Nil
  show ?case by (auto simp: collected_simps)
next
  case (Cons x xs)
  show ?case
  proof (cases x)
    case (Inl e)
    then show ?thesis by (cases vs) (auto simp: collected_simps)
  next
    case (Inr v)
    have "collected (Inr v # xs) = Inr vs
        \<longleftrightarrow> (\<exists>rest. collected xs = Inr rest \<and> vs = v # rest)"
      by (cases "collected xs") (auto simp: collected_simps)
    also have "\<dots> \<longleftrightarrow> (\<exists>rest. xs = map Inr rest \<and> vs = v # rest)"
      by (simp only: Cons.IH)
    also have "\<dots> \<longleftrightarrow> Inr v # xs = map Inr vs"
      by (cases vs) auto
    finally show ?thesis
      by (simp only: Inr)
  qed
qed

lemma mapThrow_collected: "mapThrow f xs = collected (map f xs)"
proof (induction xs)
  case Nil
  show ?case by (simp add: collected_simps)
next
  case (Cons x xs)
  then show ?case by (cases "f x") (simp_all add: collected_simps)
qed

lemma answersOf_Nil: "answersOf rd mk [] tr = []"
  by (simp add: answersOf_def)

lemma answersOf_Cons:
  "answersOf rd mk (slot # rest) tr = rd tr slot # answersOf rd mk rest (tr @ [mk slot])"
proof -
  have "[0..<length (slot # rest)] = 0 # map Suc [0..<length rest]"
    by (simp add: upt_conv_Cons map_Suc_upt del: upt_Suc)
  then show ?thesis
    by (simp add: answersOf_def comp_def del: upt_Suc)
qed

lemma length_answersOf: "length (answersOf rd mk slots tr) = length slots"
  by (simp add: answersOf_def)

lemma nth_answersOf:
  "k < length slots \<Longrightarrow>
     answersOf rd mk slots tr ! k = rd (tr @ map mk (take k slots)) (slots ! k)"
  by (simp add: answersOf_def)

lemma promiseAll_answers:
  "promiseAll rd mk slots tr = (collected (answersOf rd mk slots tr), tr @ map mk slots)"
proof (induction slots arbitrary: tr)
  case Nil
  show ?case by (simp add: answersOf_Nil collected_simps)
next
  case (Cons slot rest)
  show ?case
    by (cases "rd tr slot") (simp_all add: Cons.IH answersOf_Cons collected_simps)
qed

lemma readExtsload_outcome:
  "readExtsload client args tr = (primaryOutcome client args tr, primaryTrace client args tr)"
  by (simp add: readExtsload_def primaryOutcome_def primaryTrace_def split: sum.splits)

lemma readStorageSlots_outcome:
  "readStorageSlots client lib slots tr =
     (fallbackOutcome client lib slots tr,
      tr @ map GetStorageAtBalanced slots
         @ (if isl (convertedWords lib
                      (answersOf (getStorageAtBalanced client) GetStorageAtBalanced slots tr))
            then map ClientGetStorageAt slots else []))"
  by (simp add: readStorageSlots_def promiseAll_answers mapThrow_collected fallbackOutcome_def
      convertedWords_def split: sum.splits)








lemma readChunkWords_outcome:
  "readChunkWords client lib slots tr =
     (case primaryOutcome client (SlotList slots) tr of
        Inr words \<Rightarrow> (Inr words, primaryTrace client (SlotList slots) tr)
      | Inl e \<Rightarrow> readStorageSlots client lib slots (primaryTrace client (SlotList slots) tr))"
  by (simp add: readChunkWords_def readExtsload_outcome split: sum.splits)


section \<open>Reading a batch of games\<close>

lemma primaryOutcome_from:
  assumes "answersFrom storage client lib"
    and "primaryOutcome client args tr = Inr ws"
  shows "ws = wordsAt storage args"
  using assms by (auto simp: answersFrom_def primaryOutcome_def split: sum.splits)

lemma convertedWords_from:
  assumes rd: "\<forall>t slot h. rd t slot = Inr h \<longrightarrow> hexToBigIntSafe lib h = Inr (storage slot)"
    and conv: "convertedWords lib (answersOf rd mk slots tr) = Inr ws"
  shows "ws = map storage slots"
proof -
  from conv obtain hexes where
    a: "collected (answersOf rd mk slots tr) = Inr hexes"
    and b: "collected (map (hexToBigIntSafe lib) hexes) = Inr ws"
    by (auto simp: convertedWords_def split: sum.splits)
  from a have a': "answersOf rd mk slots tr = map Inr hexes"
    by (simp only: collected_Inr_iff)
  from b have b': "map (hexToBigIntSafe lib) hexes = map Inr ws"
    by (simp only: collected_Inr_iff)
  have l1: "length hexes = length slots"
    using arg_cong [OF a', of length] by (simp add: length_answersOf)
  have l2: "length ws = length hexes"
    using arg_cong [OF b', of length] by simp
  show ?thesis
  proof (rule nth_equalityI)
    show "length ws = length (map storage slots)" using l1 l2 by simp
  next
    fix k assume "k < length ws"
    then have k: "k < length slots" "k < length hexes" using l1 l2 by simp_all
    have "rd (tr @ map mk (take k slots)) (slots ! k) = Inr (hexes ! k)"
      using arg_cong [OF a', of "\<lambda>xs. xs ! k"] k by (simp add: nth_answersOf)
    with rd have "hexToBigIntSafe lib (hexes ! k) = Inr (storage (slots ! k))" by blast
    moreover have "hexToBigIntSafe lib (hexes ! k) = Inr (ws ! k)"
      using arg_cong [OF b', of "\<lambda>xs. xs ! k"] k l2 by simp
    ultimately show "ws ! k = map storage slots ! k" using k by simp
  qed
qed

lemma fallbackOutcome_from:
  assumes "answersFrom storage client lib"
    and "fallbackOutcome client lib slots tr = Inr ws"
  shows "ws = map storage slots"
proof -
  have p: "\<forall>t slot h. getStorageAtBalanced client t slot = Inr h
      \<longrightarrow> hexToBigIntSafe lib h = Inr (storage slot)"
    and d: "\<forall>t slot h. clientGetStorageAt client t slot = Inr h
      \<longrightarrow> hexToBigIntSafe lib h = Inr (storage slot)"
    using assms(1) by (simp_all add: answersFrom_def)
  show ?thesis
  proof (cases "convertedWords lib
      (answersOf (getStorageAtBalanced client) GetStorageAtBalanced slots tr)")
    case (Inr words)
    then have "ws = words" using assms(2) by (simp add: fallbackOutcome_def)
    with convertedWords_from [OF p Inr] show ?thesis by simp
  next
    case (Inl e)
    then have "convertedWords lib
        (answersOf (clientGetStorageAt client) ClientGetStorageAt slots
           (tr @ map GetStorageAtBalanced slots)) = Inr ws"
      using assms(2) by (simp add: fallbackOutcome_def)
    from convertedWords_from [OF d this] show ?thesis .
  qed
qed

lemma readChunkWords_from:
  assumes "answersFrom storage client lib"
    and "readChunkWords client lib slots tr = (Inr ws, tr')"
  shows "ws = map storage slots"
proof (cases "primaryOutcome client (SlotList slots) tr")
  case (Inr words)
  then have "ws = words" using assms(2) by (simp add: readChunkWords_outcome)
  with primaryOutcome_from [OF assms(1) Inr] show ?thesis by (simp add: wordsAt_def)
next
  case (Inl e)
  then have "fallbackOutcome client lib slots (primaryTrace client (SlotList slots) tr) = Inr ws"
    using assms(2) by (simp add: readChunkWords_outcome readStorageSlots_outcome)
  from fallbackOutcome_from [OF assms(1) this] show ?thesis .
qed

lemma chunkSlots_empty: "chunkSlots lib ids = Inr [] \<longleftrightarrow> ids = []"
  by (cases ids) (simp_all split: sum.splits)

lemma chunkSlots_positions:
  "chunkSlots lib ids = Inr slots \<Longrightarrow>
     length slots = 2 * length ids
     \<and> (\<forall>j<length ids. gameDataSlot lib (ids ! j) = Inr (slots ! (j * 2))
            \<and> slots ! (j * 2 + 1) = slots ! (j * 2) + 1)"
proof (induction ids arbitrary: slots)
  case Nil
  then show ?case by simp
next
  case (Cons gid rest)
  from Cons.prems obtain slot others where
    s: "gameDataSlot lib gid = Inr slot"
    and r: "chunkSlots lib rest = Inr others"
    and e: "slots = slot # (slot + 1) # others"
    by (auto split: sum.splits)
  from Cons.IH [OF r] have
    l: "length others = 2 * length rest"
    and p: "\<forall>j<length rest. gameDataSlot lib (rest ! j) = Inr (others ! (j * 2))
            \<and> others ! (j * 2 + 1) = others ! (j * 2) + 1"
    by simp_all
  have "\<forall>j<length (gid # rest). gameDataSlot lib ((gid # rest) ! j) = Inr (slots ! (j * 2))
            \<and> slots ! (j * 2 + 1) = slots ! (j * 2) + 1"
  proof (intro allI impI)
    fix j assume j: "j < length (gid # rest)"
    show "gameDataSlot lib ((gid # rest) ! j) = Inr (slots ! (j * 2))
            \<and> slots ! (j * 2 + 1) = slots ! (j * 2) + 1"
    proof (cases j)
      case 0
      then show ?thesis using s e by simp
    next
      case (Suc j')
      then have "j' < length rest" using j by simp
      with p have "gameDataSlot lib (rest ! j') = Inr (others ! (j' * 2))
            \<and> others ! (j' * 2 + 1) = others ! (j' * 2) + 1" by blast
      then show ?thesis using Suc e by simp
    qed
  qed
  then show ?case using l e by simp
qed

lemma dom_fold_upd:
  "dom (fold (\<lambda>j res. res(ks ! j \<mapsto> f j)) js results) = dom results \<union> (\<lambda>j. ks ! j) ` set js"
  by (induction js arbitrary: results) auto

lemma dom_setChunk: "dom (setChunk lib results ids ws) = dom results \<union> set ids"
proof -
  have "(\<lambda>j. ids ! j) ` set [0..<length ids] = set ids"
    by (simp add: nth_image)
  then show ?thesis
    unfolding setChunk_def by (simp only: dom_fold_upd)
qed

lemma fold_upd_cases:
  "fold (\<lambda>j res. res(k j \<mapsto> v j)) js results x = Some g \<Longrightarrow>
     results x = Some g \<or> (\<exists>j\<in>set js. k j = x \<and> g = v j)"
proof (induction js arbitrary: results)
  case Nil
  then show ?case by simp
next
  case (Cons a js)
  from Cons.prems have "fold (\<lambda>j res. res(k j \<mapsto> v j)) js (results(k a \<mapsto> v a)) x = Some g"
    by (simp del: fun_upd_apply)
  from Cons.IH [OF this] show ?case
    by (auto split: if_splits)
qed

lemma setChunk_cases:
  assumes "setChunk lib results ids ws x = Some g"
  shows "results x = Some g
     \<or> (\<exists>j<length ids. ids ! j = x
          \<and> g = decodeGameData lib (nth0 ws (j * 2)) (nth0 ws (j * 2 + 1)))"
  using fold_upd_cases [OF assms [unfolded setChunk_def]] by auto

lemma setChunk_from:
  assumes slots: "chunkSlots lib ids = Inr slots"
    and ws: "ws = map storage slots"
    and x: "setChunk lib results ids ws x = Some g"
  shows "results x = Some g
     \<or> (\<exists>slot. gameDataSlot lib x = Inr slot
          \<and> g = decodeGameData lib (storage slot) (storage (slot + 1)))"
proof -
  from chunkSlots_positions [OF slots] have
    l: "length slots = 2 * length ids"
    and p: "\<forall>j<length ids. gameDataSlot lib (ids ! j) = Inr (slots ! (j * 2))
            \<and> slots ! (j * 2 + 1) = slots ! (j * 2) + 1"
    by simp_all
  from setChunk_cases [OF x] show ?thesis
  proof
    assume "results x = Some g"
    then show ?thesis by simp
  next
    assume "\<exists>j<length ids. ids ! j = x
          \<and> g = decodeGameData lib (nth0 ws (j * 2)) (nth0 ws (j * 2 + 1))"
    then obtain j where j: "j < length ids" "ids ! j = x"
      and g: "g = decodeGameData lib (nth0 ws (j * 2)) (nth0 ws (j * 2 + 1))"
      by blast
    from p j have s: "gameDataSlot lib x = Inr (slots ! (j * 2))"
      and n: "slots ! (j * 2 + 1) = slots ! (j * 2) + 1"
      by auto
    have "j * 2 < length slots" "j * 2 + 1 < length slots" using j l by simp_all
    then have "nth0 ws (j * 2) = storage (slots ! (j * 2))"
      and "nth0 ws (j * 2 + 1) = storage (slots ! (j * 2) + 1)"
      using ws n by (simp_all add: nth0_def)
    with g s show ?thesis by simp
  qed
qed

lemma batchLoop_returns:
  assumes "0 < batchSize"
  shows "\<exists>r tr'. batchLoop client lib batchSize ids i results tr = Some (r, tr')
           \<and> (\<forall>m. r = Inr m \<longrightarrow>
                 dom m = dom results \<union> set (drop i ids)
                 \<and> (\<forall>gid\<in>set (drop i ids). \<exists>slot. gameDataSlot lib gid = Inr slot)
                 \<and> (answersFrom storage client lib \<longrightarrow>
                      (\<forall>gid g. m gid = Some g \<longrightarrow>
                         results gid = Some g
                         \<or> (\<exists>slot. gameDataSlot lib gid = Inr slot
                              \<and> g = decodeGameData lib (storage slot) (storage (slot + 1))))))"
proof (induction "length ids - i" arbitrary: i results tr rule: less_induct)
  case less
  show ?case
  proof (cases "i < length ids")
    case False
    then show ?thesis by (subst batchLoop.simps) simp
  next
    case True
    define chunk where "chunk = take batchSize (drop i ids)"
    have ne: "chunk \<noteq> []" using True assms by (simp add: chunk_def)
    have rest: "set chunk \<union> set (drop (i + batchSize) ids) = set (drop i ids)"
    proof -
      have "drop (i + batchSize) ids = drop batchSize (drop i ids)" by (simp add: add.commute)
      then have "set chunk \<union> set (drop (i + batchSize) ids)
          = set (take batchSize (drop i ids) @ drop batchSize (drop i ids))"
        by (simp add: chunk_def)
      then show ?thesis by (simp only: append_take_drop_id)
    qed
    show ?thesis
    proof (cases "chunkSlots lib chunk")
      case (Inl err)
      then show ?thesis
        using True by (subst batchLoop.simps) (simp add: chunk_def [symmetric])
    next
      case (Inr slots)
      have slots: "slots \<noteq> []" using ne Inr chunkSlots_empty [of lib chunk] by auto
      have derived: "\<forall>gid\<in>set chunk. \<exists>slot. gameDataSlot lib gid = Inr slot"
      proof
        fix gid assume "gid \<in> set chunk"
        then obtain j where j: "j < length chunk" "chunk ! j = gid"
          by (auto simp: in_set_conv_nth)
        from chunkSlots_positions [OF Inr] j
        have "gameDataSlot lib gid = Inr (slots ! (j * 2))" by blast
        then show "\<exists>slot. gameDataSlot lib gid = Inr slot" by blast
      qed
      obtain res tr1 where rc: "readChunkWords client lib slots tr = (res, tr1)"
        by (cases "readChunkWords client lib slots tr")
      show ?thesis
      proof (cases res)
        case (Inl e)
        then show ?thesis
          using True \<open>chunkSlots lib chunk = Inr slots\<close> slots rc
          by (subst batchLoop.simps) (simp add: chunk_def [symmetric])
      next
        case rw: (Inr ws)
        have smaller: "length ids - (i + batchSize) < length ids - i" using True assms by simp
        from less [OF smaller, of "setChunk lib results chunk ws" tr1]
        obtain r tr' where
          run: "batchLoop client lib batchSize ids (i + batchSize)
                  (setChunk lib results chunk ws) tr1 = Some (r, tr')"
          and post: "\<forall>m. r = Inr m \<longrightarrow>
                 dom m = dom (setChunk lib results chunk ws) \<union> set (drop (i + batchSize) ids)
                 \<and> (\<forall>gid\<in>set (drop (i + batchSize) ids). \<exists>slot. gameDataSlot lib gid = Inr slot)
                 \<and> (answersFrom storage client lib \<longrightarrow>
                      (\<forall>gid g. m gid = Some g \<longrightarrow>
                         setChunk lib results chunk ws gid = Some g
                         \<or> (\<exists>slot. gameDataSlot lib gid = Inr slot
                              \<and> g = decodeGameData lib (storage slot) (storage (slot + 1)))))"
          by (elim exE conjE)
        have step: "batchLoop client lib batchSize ids i results tr = Some (r, tr')"
          using True Inr slots rc rw run
          by (subst batchLoop.simps) (simp add: chunk_def [symmetric])
        have final: "\<forall>m. r = Inr m \<longrightarrow>
                 dom m = dom results \<union> set (drop i ids)
                 \<and> (\<forall>gid\<in>set (drop i ids). \<exists>slot. gameDataSlot lib gid = Inr slot)
                 \<and> (answersFrom storage client lib \<longrightarrow>
                      (\<forall>gid g. m gid = Some g \<longrightarrow>
                         results gid = Some g
                         \<or> (\<exists>slot. gameDataSlot lib gid = Inr slot
                              \<and> g = decodeGameData lib (storage slot) (storage (slot + 1)))))"
        proof (intro allI impI conjI)
          fix m assume m: "r = Inr m"
          note pm = post [rule_format, OF m]
          have d: "dom m = dom (setChunk lib results chunk ws) \<union> set (drop (i + batchSize) ids)"
            by (rule pm [THEN conjunct1])
          have s: "\<forall>gid\<in>set (drop (i + batchSize) ids). \<exists>slot. gameDataSlot lib gid = Inr slot"
            by (rule pm [THEN conjunct2, THEN conjunct1])
          have "dom m = dom results \<union> (set chunk \<union> set (drop (i + batchSize) ids))"
            using d by (simp only: dom_setChunk Un_assoc)
          then show "dom m = dom results \<union> set (drop i ids)"
            by (simp only: rest)
          show "\<forall>gid\<in>set (drop i ids). \<exists>slot. gameDataSlot lib gid = Inr slot"
          proof
            fix gid assume "gid \<in> set (drop i ids)"
            then have "gid \<in> set chunk \<or> gid \<in> set (drop (i + batchSize) ids)"
              using rest by blast
            then show "\<exists>slot. gameDataSlot lib gid = Inr slot"
              using derived s by blast
          qed
        next
          fix m gid g
          assume m: "r = Inr m" and env: "answersFrom storage client lib"
            and g: "m gid = Some g"
          note pm = post [rule_format, OF m]
          have c: "setChunk lib results chunk ws gid = Some g
               \<or> (\<exists>slot. gameDataSlot lib gid = Inr slot
                    \<and> g = decodeGameData lib (storage slot) (storage (slot + 1)))"
            by (rule pm [THEN conjunct2, THEN conjunct2, rule_format, OF env g])
          have w: "ws = map storage slots"
            using readChunkWords_from [OF env] rc rw by simp
          from c show "results gid = Some g
               \<or> (\<exists>slot. gameDataSlot lib gid = Inr slot
                    \<and> g = decodeGameData lib (storage slot) (storage (slot + 1)))"
          proof
            assume "setChunk lib results chunk ws gid = Some g"
            from setChunk_from [OF Inr w this] show ?thesis .
          next
            assume "\<exists>slot. gameDataSlot lib gid = Inr slot
                    \<and> g = decodeGameData lib (storage slot) (storage (slot + 1))"
            then show ?thesis by (rule disjI2)
          qed
        qed
        show ?thesis
          by (rule exI [where x = r], rule exI [where x = tr'], rule conjI, rule step, rule final)
      qed
    qed
  qed
qed

lemma set_uniqueFirst: "set (uniqueFirst xs) = set xs"
  by (simp add: uniqueFirst_def)

text \<open>
  Claim C1, amended. For every list of game identifiers and every positive batch size
  (the default is 50), \<open>readGameDataBatch\<close> returns: either an error, or a map whose keys
  are exactly the positive identifiers of the list. Each key is below \<open>2^256\<close> and has a
  slot (\<open>gameDataSlot\<close> does not throw on it); and when every answer of the RPC layer is
  that of a storage, the key is mapped to the record that \<open>decodeGameData\<close> decodes from
  the two words of that storage at the slot of the game and at the next slot. No key is
  left out for a zero creator address; the callers skip such records when they build the
  feed.
\<close>

theorem readGameDataBatch_keys:
  "0 < batchSize \<Longrightarrow>
   \<exists>r tr'. readGameDataBatch client lib gameIds batchSize tr = Some (r, tr')
     \<and> (\<forall>m. r = Inr m \<longrightarrow>
           dom m = {gid \<in> set gameIds. 0 < gid}
           \<and> (\<forall>gid\<in>dom m. gid < 2 ^ 256
                 \<and> (\<exists>slot. gameDataSlot lib gid = Inr slot
                      \<and> (answersFrom storage client lib \<longrightarrow>
                           m gid = Some (decodeGameData lib (storage slot)
                                           (storage (slot + 1)))))))"
proof -
  assume b: "0 < batchSize"
  define ids where "ids = uniqueFirst (filter (\<lambda>gid. gid > 0) gameIds)"
  have s: "set ids = {gid \<in> set gameIds. 0 < gid}"
    by (auto simp: ids_def set_uniqueFirst)
  from batchLoop_returns [OF b, of client lib ids 0 Map.empty tr storage]
  obtain r tr' where
    run: "batchLoop client lib batchSize ids 0 Map.empty tr = Some (r, tr')"
    and post0: "\<forall>m. r = Inr m \<longrightarrow>
       dom m = dom (Map.empty :: int \<rightharpoonup> GameDataView) \<union> set (drop 0 ids)
       \<and> (\<forall>gid\<in>set (drop 0 ids). \<exists>slot. gameDataSlot lib gid = Inr slot)
       \<and> (answersFrom storage client lib \<longrightarrow>
            (\<forall>gid g. m gid = Some g \<longrightarrow>
               (Map.empty :: int \<rightharpoonup> GameDataView) gid = Some g
               \<or> (\<exists>slot. gameDataSlot lib gid = Inr slot
                    \<and> g = decodeGameData lib (storage slot) (storage (slot + 1)))))"
    by (elim exE conjE)
  have post: "\<forall>m. r = Inr m \<longrightarrow>
       dom m = set ids
       \<and> (\<forall>gid\<in>set ids. \<exists>slot. gameDataSlot lib gid = Inr slot)
       \<and> (answersFrom storage client lib \<longrightarrow>
            (\<forall>gid g. m gid = Some g \<longrightarrow>
               (\<exists>slot. gameDataSlot lib gid = Inr slot
                    \<and> g = decodeGameData lib (storage slot) (storage (slot + 1)))))"
    using post0 by simp
  have "\<forall>m. r = Inr m \<longrightarrow>
           dom m = {gid \<in> set gameIds. 0 < gid}
           \<and> (\<forall>gid\<in>dom m. gid < 2 ^ 256
                 \<and> (\<exists>slot. gameDataSlot lib gid = Inr slot
                      \<and> (answersFrom storage client lib \<longrightarrow>
                           m gid = Some (decodeGameData lib (storage slot)
                                           (storage (slot + 1))))))"
  proof (intro allI impI conjI ballI)
    fix m assume m: "r = Inr m"
    with post s show "dom m = {gid \<in> set gameIds. 0 < gid}" by simp
  next
    fix m gid assume m: "r = Inr m" and gid: "gid \<in> dom m"
    with post have "gid \<in> set ids" by simp
    with post m obtain slot where slot: "gameDataSlot lib gid = Inr slot" by blast
    from gameDataSlot_range [OF slot] show "gid < 2 ^ 256" by simp
  next
    fix m gid assume m: "r = Inr m" and gid: "gid \<in> dom m"
    with post have "gid \<in> set ids" by simp
    with post m obtain slot where slot: "gameDataSlot lib gid = Inr slot" by blast
    from gid obtain g where g: "m gid = Some g" by blast
    have "answersFrom storage client lib \<longrightarrow>
        m gid = Some (decodeGameData lib (storage slot) (storage (slot + 1)))"
    proof
      assume "answersFrom storage client lib"
      with post m g obtain slot' where "gameDataSlot lib gid = Inr slot'"
        and "g = decodeGameData lib (storage slot') (storage (slot' + 1))"
        by blast
      with slot g show "m gid = Some (decodeGameData lib (storage slot) (storage (slot + 1)))"
        by simp
    qed
    with slot show "\<exists>slot. gameDataSlot lib gid = Inr slot
        \<and> (answersFrom storage client lib \<longrightarrow>
             m gid = Some (decodeGameData lib (storage slot) (storage (slot + 1))))"
      by blast
  qed
  with run show ?thesis
    unfolding readGameDataBatch_def Let_def ids_def [symmetric] by blast
qed

lemma fold_upd_other:
  "x \<notin> k ` set js \<Longrightarrow> fold (\<lambda>j res. res(k j \<mapsto> v j)) js results x = results x"
  by (induction js arbitrary: results) auto

lemma fold_upd_lookup:
  "distinct (map k js) \<Longrightarrow> j \<in> set js \<Longrightarrow>
     fold (\<lambda>j res. res(k j \<mapsto> v j)) js results (k j) = Some (v j)"
proof (induction js arbitrary: results)
  case Nil
  then show ?case by simp
next
  case (Cons a js)
  show ?case
  proof (cases "j = a")
    case True
    have "k a \<notin> k ` set js" using Cons.prems(1) by simp
    then have "fold (\<lambda>j res. res(k j \<mapsto> v j)) js (results(k a \<mapsto> v a)) (k a)
        = (results(k a \<mapsto> v a)) (k a)"
      by (rule fold_upd_other)
    then show ?thesis using True by (simp del: fun_upd_apply) simp
  next
    case False
    then show ?thesis using Cons by simp
  qed
qed

lemma setChunk_lookup:
  assumes "distinct ids" "j < length ids"
  shows "setChunk lib results ids ws (ids ! j)
       = Some (decodeGameData lib (nth0 ws (j * 2)) (nth0 ws (j * 2 + 1)))"
proof -
  have "map (\<lambda>j. ids ! j) [0..<length ids] = ids" by (simp add: map_nth)
  then have d: "distinct (map (\<lambda>j. ids ! j) [0..<length ids])" using assms(1) by simp
  have m: "j \<in> set [0..<length ids]" using assms(2) by simp
  show ?thesis
    unfolding setChunk_def
    by (rule fold_upd_lookup [OF d m, where v = "\<lambda>j. decodeGameData lib (nth0 ws (j * 2)) (nth0 ws (j * 2 + 1))"])
qed

lemma gameCreator_decode:
  "gameCreator (decodeGameData lib raw0 raw1) = getAddress lib (addressHex (take_bit 160 raw0))"
  by (simp add: decodeGameData_def Let_def load_simps toAddress_def)

lemma ex_ids: "uniqueFirst (filter (\<lambda>gid. gid > 0) [1, 2, 3 :: int]) = [1, 2, 3]"
  by code_simp

lemma ex_chunk: "chunkSlots exampleLib [1, 2, 3] = Inr [16, 17, 32, 33, 48, 49]"
  by (simp add: ex_slot)

lemma ex_words:
  "readChunkWords exampleClient exampleLib [16, 17, 32, 33, 48, 49] []
     = (Inr [0, 0, 48879, 0, 0, 0], [ReadContractBalanced (SlotList [16, 17, 32, 33, 48, 49])])"
  by (simp add: readChunkWords_def readExtsload_def exampleClient_def wordsAt_def
      exampleStorage_def)

lemma ex_addr0: "addressHex 0 = ''0x0000000000000000000000000000000000000000''"
  by code_simp

lemma ex_hex: "hexNat 48879 = ''beef''"
  by (simp add: hexNat.simps hexDigit_def)

lemma ex_addr1: "addressHex 48879 = ''0x000000000000000000000000000000000000beef''"
  unfolding addressHex_def toString16_def by (simp add: ex_hex) code_simp

lemma ex_run:
  "readGameDataBatch exampleClient exampleLib [1, 2, 3] defaultBatchSize []
     = Some (Inr (setChunk exampleLib Map.empty [1, 2, 3] [0, 0, 48879, 0, 0, 0]),
             [ReadContractBalanced (SlotList [16, 17, 32, 33, 48, 49])])"
  unfolding readGameDataBatch_def Let_def ex_ids defaultBatchSize_def
  apply (subst batchLoop.simps)
  apply (simp add: ex_chunk ex_words Let_def del: chunkSlots.simps)
  apply (subst batchLoop.simps)
  apply simp
  done

lemma ex_answers: "answersFrom exampleStorage exampleClient exampleLib"
  by (simp add: answersFrom_def exampleClient_def)

text \<open>
  Claim C1 as stated fails: reading the games 1, 2 and 3, of which only game 2 has a
  non-zero creator address in its words, returns a map that holds the keys 1 and 3 too,
  with the zero address as their creator.
\<close>

theorem readGameDataBatch_keeps_zero_creator_counterexample:
  "(case readGameDataBatch exampleClient exampleLib [1, 2, 3] defaultBatchSize [] of
      Some (Inr m, tr') \<Rightarrow>
        map (\<lambda>gid. map_option gameCreator (m gid)) [1, 2, 3]
          = [Some ''0x0000000000000000000000000000000000000000'',
             Some ''0x000000000000000000000000000000000000beef'',
             Some ''0x0000000000000000000000000000000000000000'']
    | _ \<Rightarrow> False)"
proof -
  have d: "distinct [1, 2, 3 :: int]" by simp
  have k: "setChunk exampleLib Map.empty [1, 2, 3] [0, 0, 48879, 0, 0, 0] 1
             = Some (decodeGameData exampleLib 0 0)"
          "setChunk exampleLib Map.empty [1, 2, 3] [0, 0, 48879, 0, 0, 0] 2
             = Some (decodeGameData exampleLib 48879 0)"
          "setChunk exampleLib Map.empty [1, 2, 3] [0, 0, 48879, 0, 0, 0] 3
             = Some (decodeGameData exampleLib 0 0)"
    using setChunk_lookup [OF d, of 0 exampleLib Map.empty "[0, 0, 48879, 0, 0, 0]"]
          setChunk_lookup [OF d, of 1 exampleLib Map.empty "[0, 0, 48879, 0, 0, 0]"]
          setChunk_lookup [OF d, of 2 exampleLib Map.empty "[0, 0, 48879, 0, 0, 0]"]
    by (simp_all add: nth0_def)
  show ?thesis
    unfolding ex_run by (simp add: k gameCreator_decode ex_fields ex_addr0 ex_addr1)
qed

theorem readGameDataBatch_keys_witness:
  "0 < defaultBatchSize
   \<and> answersFrom exampleStorage exampleClient exampleLib
   \<and> (\<exists>m tr'. readGameDataBatch exampleClient exampleLib [1, 2, 3] defaultBatchSize []
                   = Some (Inr m, tr')
                \<and> dom m = {1, 2, 3}
                \<and> gameDataSlot exampleLib 2 = Inr 32
                \<and> m 2 = Some (decodeGameData exampleLib (exampleStorage 32) (exampleStorage 33)))"
proof -
  have b: "0 < defaultBatchSize" by (simp add: defaultBatchSize_def)
  from readGameDataBatch_keys [OF b, of exampleClient exampleLib "[1, 2, 3]" "[]" exampleStorage]
  obtain r tr' where
    run: "readGameDataBatch exampleClient exampleLib [1, 2, 3] defaultBatchSize [] = Some (r, tr')"
    and post: "\<forall>m. r = Inr m \<longrightarrow>
           dom m = {gid \<in> set [1, 2, 3]. 0 < gid}
           \<and> (\<forall>gid\<in>dom m. gid < 2 ^ 256
                 \<and> (\<exists>slot. gameDataSlot exampleLib gid = Inr slot
                      \<and> (answersFrom exampleStorage exampleClient exampleLib \<longrightarrow>
                           m gid = Some (decodeGameData exampleLib (exampleStorage slot)
                                           (exampleStorage (slot + 1))))))"
    by (elim exE conjE)
  from run obtain m where r: "r = Inr m" unfolding ex_run by auto
  note pm = post [rule_format, OF r]
  have "{gid \<in> set [1, 2, 3 :: int]. 0 < gid} = {1, 2, 3}" by auto
  with pm [THEN conjunct1] have keys: "dom m = {1, 2, 3}" by simp
  then have "2 \<in> dom m" by simp
  from pm [THEN conjunct2, rule_format, OF this]
  obtain slot where slot: "gameDataSlot exampleLib 2 = Inr slot"
    and stored: "answersFrom exampleStorage exampleClient exampleLib \<longrightarrow>
       m 2 = Some (decodeGameData exampleLib (exampleStorage slot) (exampleStorage (slot + 1)))"
    by blast
  have s32: "gameDataSlot exampleLib 2 = Inr 32" by (simp add: ex_slot)
  with slot have "slot = 32" by simp
  with stored ex_answers
  have "m 2 = Some (decodeGameData exampleLib (exampleStorage 32) (exampleStorage 33))"
    by simp
  with run r b keys s32 ex_answers show ?thesis by blast
qed

section \<open>The fallback discipline of the word reads\<close>






















end
